theory Spec2Isabelle
  imports Complex_Main
begin

section \<open>Strings\<close>

text \<open>
  A JavaScript string is modelled as a \<^typ>\<open>string\<close>, one \<^typ>\<open>char\<close> for each UTF-16 code
  unit below 256, so the model covers Latin-1 text; \<open>length\<close> is the \<open>.length\<close> of the source.
  Numbers that are counts or indices are \<^typ>\<open>nat\<close> or \<^typ>\<open>int\<close>, scores and confidences are
  \<^typ>\<open>real\<close>. Console output is not part of the model: it changes no value and no store.
\<close>

definition charCode :: "char \<Rightarrow> nat" where
  "charCode c = of_char c"

text \<open>The character classes \<open>\s\<close>, \<open>\w\<close>, \<open>\d\<close>, \<open>[a-z]\<close>, \<open>[A-Z]\<close> of the regular expressions.\<close>

definition isSpace :: "char \<Rightarrow> bool" where
  "isSpace c = (charCode c \<in> {9, 10, 11, 12, 13, 32, 160})"

definition isDigit :: "char \<Rightarrow> bool" where
  "isDigit c = (48 \<le> charCode c \<and> charCode c \<le> 57)"

definition isLowerAZ :: "char \<Rightarrow> bool" where
  "isLowerAZ c = (97 \<le> charCode c \<and> charCode c \<le> 122)"

definition isUpperAZ :: "char \<Rightarrow> bool" where
  "isUpperAZ c = (65 \<le> charCode c \<and> charCode c \<le> 90)"

definition isAlnum :: "char \<Rightarrow> bool" where
  "isAlnum c = (isLowerAZ c \<or> isUpperAZ c \<or> isDigit c)"

definition isWord :: "char \<Rightarrow> bool" where
  "isWord c = (isAlnum c \<or> c = CHR ''_'')"

definition isWordOrDot :: "char \<Rightarrow> bool" where
  "isWordOrDot c = (isWord c \<or> c = CHR ''.'')"

text \<open>\<open>.\<close> of a regular expression: any code unit but a line terminator.\<close>

definition isNotLineTerminator :: "char \<Rightarrow> bool" where
  "isNotLineTerminator c = (c \<noteq> CHR 0x0A \<and> c \<noteq> CHR 0x0D)"

text \<open>\<open>String.prototype.toLowerCase\<close> on code units below 256: the letters A to Z and the
  capital letters of Latin-1.\<close>

definition lowerTable :: "(char \<times> char) list" where
  "lowerTable =
     zip ''ABCDEFGHIJKLMNOPQRSTUVWXYZ'' ''abcdefghijklmnopqrstuvwxyz'' @
     [(CHR 0xC0, CHR 0xE0), (CHR 0xC1, CHR 0xE1), (CHR 0xC2, CHR 0xE2), (CHR 0xC3, CHR 0xE3),
      (CHR 0xC4, CHR 0xE4), (CHR 0xC5, CHR 0xE5), (CHR 0xC6, CHR 0xE6), (CHR 0xC7, CHR 0xE7),
      (CHR 0xC8, CHR 0xE8), (CHR 0xC9, CHR 0xE9), (CHR 0xCA, CHR 0xEA), (CHR 0xCB, CHR 0xEB),
      (CHR 0xCC, CHR 0xEC), (CHR 0xCD, CHR 0xED), (CHR 0xCE, CHR 0xEE), (CHR 0xCF, CHR 0xEF),
      (CHR 0xD0, CHR 0xF0), (CHR 0xD1, CHR 0xF1), (CHR 0xD2, CHR 0xF2), (CHR 0xD3, CHR 0xF3),
      (CHR 0xD4, CHR 0xF4), (CHR 0xD5, CHR 0xF5), (CHR 0xD6, CHR 0xF6), (CHR 0xD8, CHR 0xF8),
      (CHR 0xD9, CHR 0xF9), (CHR 0xDA, CHR 0xFA), (CHR 0xDB, CHR 0xFB), (CHR 0xDC, CHR 0xFC),
      (CHR 0xDD, CHR 0xFD), (CHR 0xDE, CHR 0xFE)]"

definition toLowerChar :: "char \<Rightarrow> char" where
  "toLowerChar c = (case map_of lowerTable c of Some l \<Rightarrow> l | None \<Rightarrow> c)"

definition toLowerCase :: "string \<Rightarrow> string" where
  "toLowerCase s = map toLowerChar s"

text \<open>\<open>startsWith\<close>, \<open>endsWith\<close>, \<open>includes\<close>, \<open>trim\<close>, \<open>join\<close>.\<close>

fun startsWith :: "string \<Rightarrow> string \<Rightarrow> bool" where
  "startsWith s [] = True"
| "startsWith [] (k # ks) = False"
| "startsWith (c # cs) (k # ks) = (c = k \<and> startsWith cs ks)"

definition endsWith :: "string \<Rightarrow> string \<Rightarrow> bool" where
  "endsWith s k = startsWith (rev s) (rev k)"

fun includesStr :: "string \<Rightarrow> string \<Rightarrow> bool" where
  "includesStr [] k = (k = [])"
| "includesStr (c # cs) k = (startsWith (c # cs) k \<or> includesStr cs k)"

definition trimStart :: "string \<Rightarrow> string" where
  "trimStart s = dropWhile isSpace s"

definition trim :: "string \<Rightarrow> string" where
  "trim s = rev (dropWhile isSpace (rev (dropWhile isSpace s)))"

fun join :: "string \<Rightarrow> string list \<Rightarrow> string" where
  "join sep [] = []"
| "join sep [x] = x"
| "join sep (x # y # ys) = x @ sep @ join sep (y # ys)"

text \<open>\<open>s.split(sep)\<close> for a separator of one character.\<close>

fun splitOn :: "char \<Rightarrow> string \<Rightarrow> string list" where
  "splitOn sep [] = [[]]"
| "splitOn sep (c # cs) =
     (case splitOn sep cs of
        [] \<Rightarrow> [[c]]
      | p # ps \<Rightarrow> if c = sep then [] # p # ps else (c # p) # ps)"

text \<open>Decimal rendering of a number inside a template string.\<close>

definition digitChar :: "nat \<Rightarrow> char" where
  "digitChar d = (''0123456789'' ! d)"

fun showNat :: "nat \<Rightarrow> string" where
  "showNat n = (if n < 10 then [digitChar n] else showNat (n div 10) @ [digitChar (n mod 10)])"

declare showNat.simps [simp del]

text \<open>\<open>parseInt\<close> of a string of decimal digits.\<close>

definition digitVal :: "char \<Rightarrow> nat" where
  "digitVal c = charCode c - 48"

definition parseDigits :: "string \<Rightarrow> nat" where
  "parseDigits ds = foldl (\<lambda>acc d. 10 * acc + digitVal d) 0 ds"

section \<open>Regular expressions\<close>

text \<open>
  A regular expression of the source is modelled by its anchored matcher: given the rest of
  the subject at some position, the number of code units the expression matches there and
  the text of its capture groups, or \<open>None\<close>. The scanning functions below follow
  ECMAScript: \<open>scanAll\<close> is the iteration of a global expression (\<open>matchAll\<close>, \<open>match\<close>
  with \<open>g\<close>), \<open>replaceAll\<close> is \<open>replace\<close> with a global expression, \<open>firstMatch\<close> is
  \<open>match\<close> without \<open>g\<close>, and \<open>jsSplit\<close> is \<open>split\<close> with an expression.
\<close>

type_synonym matcher = "string \<Rightarrow> (nat \<times> string list) option"

function scanAll :: "matcher \<Rightarrow> string \<Rightarrow> (string \<times> string list) list" where
  "scanAll m [] = (case m [] of None \<Rightarrow> [] | Some (n, gs) \<Rightarrow> [([], gs)])"
| "scanAll m (c # cs) =
     (case m (c # cs) of
        None \<Rightarrow> scanAll m cs
      | Some (n, gs) \<Rightarrow> (take n (c # cs), gs) # scanAll m (drop (max n 1) (c # cs)))"
  by pat_completeness auto
termination
  by (relation "measure (\<lambda>(m, s). length s)") auto

function replaceAll :: "matcher \<Rightarrow> (string \<Rightarrow> string list \<Rightarrow> string) \<Rightarrow> string \<Rightarrow> string" where
  "replaceAll m f [] = (case m [] of None \<Rightarrow> [] | Some (n, gs) \<Rightarrow> f [] gs)"
| "replaceAll m f (c # cs) =
     (case m (c # cs) of
        None \<Rightarrow> c # replaceAll m f cs
      | Some (n, gs) \<Rightarrow>
          if n = 0 then f [] gs @ c # replaceAll m f cs
          else f (take n (c # cs)) gs @ replaceAll m f (drop n (c # cs)))"
  by pat_completeness auto
termination
  by (relation "measure (\<lambda>(m, f, s). length s)") auto

fun firstMatch :: "matcher \<Rightarrow> string \<Rightarrow> (string \<times> string list) option" where
  "firstMatch m [] = (case m [] of None \<Rightarrow> None | Some (n, gs) \<Rightarrow> Some ([], gs))"
| "firstMatch m (c # cs) =
     (case m (c # cs) of
        None \<Rightarrow> firstMatch m cs
      | Some (n, gs) \<Rightarrow> Some (take n (c # cs), gs))"

text \<open>
  \<open>jsSplitLoop m cur rest\<close>: \<open>cur\<close> is the text between \<open>p\<close> and \<open>q\<close> of the
  specification's loop and \<open>rest\<close> the subject from \<open>q\<close> on. A match that ends at \<open>p\<close>
  (an empty match with nothing pending) only advances \<open>q\<close>.
\<close>

function jsSplitLoop :: "matcher \<Rightarrow> string \<Rightarrow> string \<Rightarrow> string list" where
  "jsSplitLoop m cur [] = [cur]"
| "jsSplitLoop m cur (c # cs) =
     (case m (c # cs) of
        None \<Rightarrow> jsSplitLoop m (cur @ [c]) cs
      | Some (n, gs) \<Rightarrow>
          if min n (length (c # cs)) = 0 \<and> cur = [] then jsSplitLoop m (cur @ [c]) cs
          else cur # jsSplitLoop m [] (drop n (c # cs)))"
  by pat_completeness auto
termination
  by (relation "measure (\<lambda>(m, cur, s). 2 * length s + (if cur = [] then 0 else 1))") auto

definition jsSplit :: "matcher \<Rightarrow> string \<Rightarrow> string list" where
  "jsSplit m s =
     (if s = [] then (case m [] of None \<Rightarrow> [[]] | Some r \<Rightarrow> []) else jsSplitLoop m [] s)"

text \<open>Building blocks: a literal, and a greedy run of a character class.\<close>

definition lit :: "string \<Rightarrow> string \<Rightarrow> string option" where
  "lit k s = (if startsWith s k then Some (drop (length k) s) else None)"

definition many1 :: "(char \<Rightarrow> bool) \<Rightarrow> string \<Rightarrow> (string \<times> string) option" where
  "many1 P s = (if takeWhile P s = [] then None else Some (takeWhile P s, dropWhile P s))"

definition consumed :: "string \<Rightarrow> string \<Rightarrow> nat" where
  "consumed s rest = length s - length rest"

text \<open>\<open>\s+\<close>, the separator of \<open>query.split(/\s+/)\<close>; it has no capture group, so
  \<open>split\<close> adds nothing but the pieces.\<close>

definition reSpaces :: matcher where
  "reSpaces s = (case many1 isSpace s of None \<Rightarrow> None | Some (ws, rest) \<Rightarrow> Some (length ws, []))"

section \<open>Errors\<close>

text \<open>What the source throws: the access-denied error of the filesystem client, a
  failure of the file system, of the embedding provider or of the vector store, and the
  \<open>RangeError\<close> of \<open>String.prototype.repeat\<close>.\<close>

datatype error =
    AccessDenied string
  | FsError string
  | EmbeddingError
  | VectorStoreError
  | RangeError
  | CallbackError

section \<open>Retrieval engine: query intent\<close>

datatype intentType = CodeGeneration | Explanation | Debugging | Optimization | General

record QueryIntent =
  intent_type :: intentType
  intent_keywords :: "string list"
  unitySpecific :: bool

definition stopWords :: "string list" where
  "stopWords = [''the'', ''a'', ''an'', ''and'', ''or'', ''but'', ''in'', ''on'', ''at'', ''to'',
                ''for'', ''of'', ''with'']"

definition unityKeywords :: "string list" where
  "unityKeywords = [''unity'', ''gameobject'', ''monobehaviour'', ''transform'', ''rigidbody'',
                    ''collider'', ''prefab'', ''scene'', ''awake'', ''start'', ''update'',
                    ''fixedupdate'', ''networkbehaviour'', ''rpc'', ''serializefield'']"

definition analyzeQueryIntent :: "string \<Rightarrow> QueryIntent" where
  "analyzeQueryIntent query =
     (let lowerQuery = toLowerCase query;
          type =
            (if includesStr lowerQuery ''create'' \<or> includesStr lowerQuery ''implement'' \<or>
                includesStr lowerQuery ''generate'' \<or> includesStr lowerQuery ''write''
             then CodeGeneration
             else if includesStr lowerQuery ''explain'' \<or> includesStr lowerQuery ''what is'' \<or>
                includesStr lowerQuery ''how does'' \<or> includesStr lowerQuery ''why''
             then Explanation
             else if includesStr lowerQuery ''error'' \<or> includesStr lowerQuery ''bug'' \<or>
                includesStr lowerQuery ''fix'' \<or> includesStr lowerQuery ''debug'' \<or>
                includesStr lowerQuery ''not working''
             then Debugging
             else if includesStr lowerQuery ''optimize'' \<or> includesStr lowerQuery ''performance'' \<or>
                includesStr lowerQuery ''faster'' \<or> includesStr lowerQuery ''improve''
             then Optimization
             else General);
          words = jsSplit reSpaces query;
          kws = filter (\<lambda>word. toLowerCase word \<notin> set stopWords \<and> length word > 2) words
      in \<lparr>intent_type = type, intent_keywords = kws,
          unitySpecific = list_ex (\<lambda>keyword. includesStr lowerQuery keyword) unityKeywords\<rparr>)"

text \<open>The classification as the specification words it: the keyword buckets in priority
  order, the first bucket with a keyword in the lower-cased query wins, \<open>general\<close> when
  none has one.\<close>

definition intentBuckets :: "(intentType \<times> string list) list" where
  "intentBuckets =
     [(CodeGeneration, [''create'', ''implement'', ''generate'', ''write'']),
      (Explanation, [''explain'', ''what is'', ''how does'', ''why'']),
      (Debugging, [''error'', ''bug'', ''fix'', ''debug'', ''not working'']),
      (Optimization, [''optimize'', ''performance'', ''faster'', ''improve''])]"

definition firstMatchingBucket :: "string \<Rightarrow> intentType" where
  "firstMatchingBucket query =
     (case find (\<lambda>(t, kws). list_ex (includesStr (toLowerCase query)) kws) intentBuckets of
        None \<Rightarrow> General
      | Some (t, kws) \<Rightarrow> t)"

section \<open>Vector store client: semantic search\<close>

datatype fileType = Script | Scene | Prefab | Asset | Documentation

text \<open>\<open>VectorMetadata\<close>; the optional fields \<open>lastAccessed\<close>, \<open>accessCount\<close> and
  \<open>importance\<close>, which no code under study writes or reads, are left out.\<close>

record VectorMetadata =
  md_projectId :: string
  md_projectName :: string
  md_fileType :: fileType
  md_filePath :: string
  md_language :: string
  md_unityVersion :: string
  md_className :: "string option"
  md_namespace :: "string option"
  md_methods :: "string list option"
  md_dependencies :: "string list option"
  md_createdAt :: int
  md_updatedAt :: int

record VectorDocument =
  doc_id :: string
  doc_content :: string
  doc_embedding :: "real list"
  doc_metadata :: VectorMetadata

text \<open>A record of the index as the client writes it, \<open>{id, values, metadata: {content, ...}}\<close>,
  and a match of a query: a record with its score; score and values may be absent.\<close>

record PineconeRecord =
  rec_id :: string
  rec_values :: "real list"
  rec_content :: string
  rec_metadata :: VectorMetadata

record ScoredVector =
  match_id :: string
  match_score :: "real option"
  match_values :: "real list option"
  match_content :: string
  match_metadata :: VectorMetadata

datatype relevance = High | Medium | Low

record SemanticSearchResult =
  document :: VectorDocument
  score :: real
  relevance :: relevance

type_synonym queryFilter = "(string \<times> string) list"

record SearchOptions =
  topK :: "nat option"
  filter_opt :: "queryFilter option"
  minScore :: "real option"

text \<open>The two collaborators of the client: the embedding provider and the index of the
  vector store. Either call may fail.\<close>

type_synonym embedder = "string \<Rightarrow> error + real list"
type_synonym indexQuery = "real list \<Rightarrow> nat \<Rightarrow> queryFilter option \<Rightarrow> error + ScoredVector list"

text \<open>\<open>x || d\<close> on an optional number: the default replaces an absent value and zero.\<close>

definition orDefault :: "'a::zero option \<Rightarrow> 'a \<Rightarrow> 'a" where
  "orDefault x d = (case x of None \<Rightarrow> d | Some v \<Rightarrow> if v = 0 then d else v)"

definition keepMatch :: "real \<Rightarrow> ScoredVector \<Rightarrow> bool" where
  "keepMatch minS m = (case match_score m of None \<Rightarrow> False | Some s \<Rightarrow> s \<noteq> 0 \<and> s \<ge> minS)"

definition toSearchResult :: "ScoredVector \<Rightarrow> SemanticSearchResult" where
  "toSearchResult m =
     (let sc = orDefault (match_score m) 0
      in \<lparr>document = \<lparr>doc_id = match_id m, doc_content = match_content m,
                       doc_embedding = (case match_values m of None \<Rightarrow> [] | Some v \<Rightarrow> v),
                       doc_metadata = match_metadata m\<rparr>,
          score = sc,
          relevance = (if sc > 0.85 then High else if sc > 0.75 then Medium else Low)\<rparr>)"

definition search ::
  "embedder \<Rightarrow> indexQuery \<Rightarrow> string \<Rightarrow> SearchOptions option \<Rightarrow> error + SemanticSearchResult list" where
  "search generateEmbedding indexQuery query options =
     (let k = orDefault (case options of None \<Rightarrow> None | Some ops \<Rightarrow> topK ops) 5;
          minS = orDefault (case options of None \<Rightarrow> None | Some ops \<Rightarrow> minScore ops) 0.7
      in case generateEmbedding query of
           Inl e \<Rightarrow> Inl e
         | Inr queryEmbedding \<Rightarrow>
             (case indexQuery queryEmbedding k
                     (case options of None \<Rightarrow> None | Some ops \<Rightarrow> filter_opt ops) of
                Inl e \<Rightarrow> Inl e
              | Inr matches \<Rightarrow> Inr (map toSearchResult (filter (keepMatch minS) matches))))"

definition searchInProject ::
  "embedder \<Rightarrow> indexQuery \<Rightarrow> string \<Rightarrow> string \<Rightarrow> nat option \<Rightarrow> string option
     \<Rightarrow> error + SemanticSearchResult list" where
  "searchInProject generateEmbedding indexQuery query pid k ftype =
     search generateEmbedding indexQuery query
       (Some \<lparr>topK = k,
              filter_opt = Some ([(''projectId'', pid)] @
                 (case ftype of None \<Rightarrow> [] | Some t \<Rightarrow> if t = [] then [] else [(''fileType'', t)])),
              minScore = None\<rparr>)"

text \<open>The default options: no \<open>minScore\<close> given, so the threshold is 0.7.\<close>

definition defaultThreshold :: "SearchOptions option \<Rightarrow> bool" where
  "defaultThreshold options = (case options of None \<Rightarrow> True | Some ops \<Rightarrow> minScore ops = None)"

text \<open>An index answering every query with five matches, of scores 0.9, 0.8, 0.72, 0.5 and
  none.\<close>

definition exampleMetadata :: VectorMetadata where
  "exampleMetadata =
     \<lparr>md_projectId = ''/game'', md_projectName = ''game'', md_fileType = Script,
      md_filePath = ''/game/Assets/Scripts/Player.cs'', md_language = ''csharp'',
      md_unityVersion = ''6000.0.1f1'', md_className = Some ''Player'', md_namespace = None,
      md_methods = Some [], md_dependencies = Some [], md_createdAt = 0, md_updatedAt = 0\<rparr>"

definition exampleMatch :: "string \<Rightarrow> real option \<Rightarrow> ScoredVector" where
  "exampleMatch i s =
     \<lparr>match_id = i, match_score = s, match_values = None, match_content = ''class Player {}'',
      match_metadata = exampleMetadata\<rparr>"

definition exampleMatches :: "ScoredVector list" where
  "exampleMatches =
     [exampleMatch ''a'' (Some 0.9), exampleMatch ''b'' (Some 0.8), exampleMatch ''c'' (Some 0.72),
      exampleMatch ''d'' (Some 0.5), exampleMatch ''e'' None]"

definition exampleEmbedder :: embedder where
  "exampleEmbedder text = Inr [1, 0]"

definition exampleIndexQuery :: indexQuery where
  "exampleIndexQuery v k f = Inr exampleMatches"

section \<open>The regular expressions of the source\<close>

text \<open>
  Every expression below is matched greedily without backtracking. That is exact for
  them: wherever a run \<open>\s+\<close>, \<open>\w+\<close> or \<open>[\w.]+\<close> is followed by something, what
  follows starts outside the class of the run, so only the longest run can be followed by
  it; and the alternatives of \<open>(?:public|private|protected)\<close> exclude one another.
\<close>

definition many0 :: "(char \<Rightarrow> bool) \<Rightarrow> string \<Rightarrow> string" where
  "many0 P s = dropWhile P s"

fun altLit :: "string list \<Rightarrow> string \<Rightarrow> string option" where
  "altLit [] s = None"
| "altLit (k # ks) s = (case lit k s of Some r \<Rightarrow> Some r | None \<Rightarrow> altLit ks s)"

text \<open>\<open>(?=e)\<close>: the expression \<open>e\<close> must match here, and nothing is consumed.\<close>

definition lookahead :: "matcher \<Rightarrow> matcher" where
  "lookahead m s = (case m s of None \<Rightarrow> None | Some r \<Rightarrow> Some (0, []))"

text \<open>\<open>class\s+(\w+)\<close>\<close>

definition reClass :: matcher where
  "reClass s =
     (case lit ''class'' s of None \<Rightarrow> None | Some r1 \<Rightarrow>
      (case many1 isSpace r1 of None \<Rightarrow> None | Some (ws, r2) \<Rightarrow>
       (case many1 isWord r2 of None \<Rightarrow> None | Some (name, r3) \<Rightarrow>
          Some (consumed s r3, [name]))))"

text \<open>\<open>namespace\s+([\w.]+)\<close>\<close>

definition reNamespace :: matcher where
  "reNamespace s =
     (case lit ''namespace'' s of None \<Rightarrow> None | Some r1 \<Rightarrow>
      (case many1 isSpace r1 of None \<Rightarrow> None | Some (ws, r2) \<Rightarrow>
       (case many1 isWordOrDot r2 of None \<Rightarrow> None | Some (name, r3) \<Rightarrow>
          Some (consumed s r3, [name]))))"

text \<open>\<open>(?:public|private|protected)\s+\w+\s+(\w+)\s*\(\<close>\<close>

definition reMethod :: matcher where
  "reMethod s =
     (case altLit [''public'', ''private'', ''protected''] s of None \<Rightarrow> None | Some r1 \<Rightarrow>
      (case many1 isSpace r1 of None \<Rightarrow> None | Some (ws1, r2) \<Rightarrow>
       (case many1 isWord r2 of None \<Rightarrow> None | Some (ty, r3) \<Rightarrow>
        (case many1 isSpace r3 of None \<Rightarrow> None | Some (ws2, r4) \<Rightarrow>
         (case many1 isWord r4 of None \<Rightarrow> None | Some (name, r5) \<Rightarrow>
          (case lit ''('' (many0 isSpace r5) of None \<Rightarrow> None | Some r6 \<Rightarrow>
             Some (consumed s r6, [name])))))))"

text \<open>\<open>using\s+([\w.]+);\<close>\<close>

definition reUsing :: matcher where
  "reUsing s =
     (case lit ''using'' s of None \<Rightarrow> None | Some r1 \<Rightarrow>
      (case many1 isSpace r1 of None \<Rightarrow> None | Some (ws, r2) \<Rightarrow>
       (case many1 isWordOrDot r2 of None \<Rightarrow> None | Some (name, r3) \<Rightarrow>
        (case lit '';'' r3 of None \<Rightarrow> None | Some r4 \<Rightarrow>
           Some (consumed s r4, [name])))))"

text \<open>\<open>(?:private|public|protected)\s+\w+\s+(\w+)\s*[;=]\<close>\<close>

definition reVariable :: matcher where
  "reVariable s =
     (case altLit [''private'', ''public'', ''protected''] s of None \<Rightarrow> None | Some r1 \<Rightarrow>
      (case many1 isSpace r1 of None \<Rightarrow> None | Some (ws1, r2) \<Rightarrow>
       (case many1 isWord r2 of None \<Rightarrow> None | Some (ty, r3) \<Rightarrow>
        (case many1 isSpace r3 of None \<Rightarrow> None | Some (ws2, r4) \<Rightarrow>
         (case many1 isWord r4 of None \<Rightarrow> None | Some (name, r5) \<Rightarrow>
          (case altLit ['';'', ''=''] (many0 isSpace r5) of None \<Rightarrow> None | Some r6 \<Rightarrow>
             Some (consumed s r6, [name])))))))"

text \<open>\<open>private\s+(\w+)\s+([a-z]\w+)\<close>: the second group is a lower-case letter and at
  least one more word character.\<close>

definition rePrivateField :: matcher where
  "rePrivateField s =
     (case lit ''private'' s of None \<Rightarrow> None | Some r1 \<Rightarrow>
      (case many1 isSpace r1 of None \<Rightarrow> None | Some (ws1, r2) \<Rightarrow>
       (case many1 isWord r2 of None \<Rightarrow> None | Some (ty, r3) \<Rightarrow>
        (case many1 isSpace r3 of None \<Rightarrow> None | Some (ws2, r4) \<Rightarrow>
         (case many1 isWord r4 of None \<Rightarrow> None | Some (name, r5) \<Rightarrow>
            if isLowerAZ (hd name) \<and> 2 \<le> length name then Some (consumed s r5, [ty, name])
            else None)))))"

text \<open>\<open>\)\s*{\<close>\<close>

definition reParenBrace :: matcher where
  "reParenBrace s =
     (case lit '')'' s of None \<Rightarrow> None | Some r1 \<Rightarrow>
      (case lit ''{'' (many0 isSpace r1) of None \<Rightarrow> None | Some r2 \<Rightarrow>
         Some (consumed s r2, [])))"

text \<open>\<open>\)\s*\n\s*{\<close>: the white space between the parenthesis and the brace, which is
  all of the run since a brace is no white space, has a line feed in it.\<close>

definition reParenNewlineBrace :: matcher where
  "reParenNewlineBrace s =
     (case lit '')'' s of None \<Rightarrow> None | Some r1 \<Rightarrow>
      (case lit ''{'' (many0 isSpace r1) of None \<Rightarrow> None | Some r2 \<Rightarrow>
         if CHR 0x0A \<in> set (takeWhile isSpace r1) then Some (consumed s r2, []) else None))"

text \<open>\<open>\d+\<close>\<close>

definition reDigits :: matcher where
  "reDigits s = (case many1 isDigit s of None \<Rightarrow> None | Some (ds, r) \<Rightarrow> Some (length ds, []))"

text \<open>\<open>m_EditorVersion: (.+)\<close>\<close>

definition reEditorVersion :: matcher where
  "reEditorVersion s =
     (case lit ''m_EditorVersion: '' s of None \<Rightarrow> None | Some r1 \<Rightarrow>
      (case many1 isNotLineTerminator r1 of None \<Rightarrow> None | Some (v, r2) \<Rightarrow>
         Some (consumed s r2, [v])))"

section \<open>Indexing pipeline: metadata extraction and chunking\<close>

record ScriptMetadata =
  sm_className :: "string option"
  sm_namespace :: "string option"
  sm_methods :: "string list"
  sm_dependencies :: "string list"

text \<open>\<open>parseScript\<close>: four independent scans; the scans cannot throw, so the
  \<open>catch\<close> of the source is never entered.\<close>

definition parseScript :: "string \<Rightarrow> string \<Rightarrow> ScriptMetadata" where
  "parseScript content path =
     \<lparr>sm_className = map_option (\<lambda>(m, gs). gs ! 0) (firstMatch reClass content),
      sm_namespace = map_option (\<lambda>(m, gs). gs ! 0) (firstMatch reNamespace content),
      sm_methods = map (\<lambda>(m, gs). gs ! 0) (scanAll reMethod content),
      sm_dependencies = map (\<lambda>(m, gs). gs ! 0) (scanAll reUsing content)\<rparr>"

text \<open>
  \<open>chunkScript\<close>. \<open>accumulate N currentChunk methodSections\<close> is the inner loop over
  the method sections of a class section longer than \<open>N\<close>, with the final flush; it returns
  the chunks pushed. \<open>maxChunkSize\<close> is an integer \<open>N\<close>.
\<close>

fun accumulate :: "int \<Rightarrow> string \<Rightarrow> string list \<Rightarrow> string list" where
  "accumulate N currentChunk [] = (if currentChunk \<noteq> [] then [trim currentChunk] else [])"
| "accumulate N currentChunk (method # rest) =
     (if int (length (currentChunk @ method)) \<le> N then accumulate N (currentChunk @ method) rest
      else (if currentChunk \<noteq> [] then [trim currentChunk] else []) @ accumulate N method rest)"

definition classSections :: "string \<Rightarrow> string list" where
  "classSections content = jsSplit (lookahead reClass) content"

definition methodSections :: "string \<Rightarrow> string list" where
  "methodSections section = jsSplit (lookahead reMethod) section"

definition chunkSection :: "int \<Rightarrow> string \<Rightarrow> string list" where
  "chunkSection N section =
     (if int (length section) \<le> N then [trim section]
      else accumulate N [] (methodSections section))"

definition chunkScript :: "string \<Rightarrow> int \<Rightarrow> string list" where
  "chunkScript content maxChunkSize =
     filter (\<lambda>chunk. length chunk > 0) (concat (map (chunkSection maxChunkSize) (classSections content)))"

definition defaultMaxChunkSize :: int where
  "defaultMaxChunkSize = 1000"

definition exampleScript :: string where
  "exampleScript = ''class A {}  class Big { public int F() {} }''"

section \<open>Style analyzer\<close>

datatype patternType = Naming | Architecture | Formatting | Component

record CodePattern =
  pat_type :: patternType
  pattern :: string
  frequency :: nat
  confidence :: real
  examples :: "string list"

record CodeStyleProfile =
  patterns :: "CodePattern list"
  lastAnalyzed :: int
  fileCount :: nat
  profile_confidence :: real

text \<open>The casing tests \<open>/^[A-Z][a-zA-Z0-9]*$/\<close>, \<open>/^[a-z][a-zA-Z0-9]*$/\<close>,
  \<open>/^_[a-z][a-zA-Z0-9]*$/\<close>, \<open>/^[A-Z]/\<close> and \<open>/^[a-z]/\<close>.\<close>

definition isPascalCase :: "string \<Rightarrow> bool" where
  "isPascalCase name = (case name of [] \<Rightarrow> False | c # cs \<Rightarrow> isUpperAZ c \<and> list_all isAlnum cs)"

definition isCamelCase :: "string \<Rightarrow> bool" where
  "isCamelCase name = (case name of [] \<Rightarrow> False | c # cs \<Rightarrow> isLowerAZ c \<and> list_all isAlnum cs)"

definition isUnderscoreCamel :: "string \<Rightarrow> bool" where
  "isUnderscoreCamel name =
     (case name of [] \<Rightarrow> False | c # cs \<Rightarrow> c = CHR ''_'' \<and> isCamelCase cs)"

definition startsUpper :: "string \<Rightarrow> bool" where
  "startsUpper name = (case name of [] \<Rightarrow> False | c # cs \<Rightarrow> isUpperAZ c)"

definition startsLower :: "string \<Rightarrow> bool" where
  "startsLower name = (case name of [] \<Rightarrow> False | c # cs \<Rightarrow> isLowerAZ c)"

text \<open>All first groups of a global expression over all scripts, in order.\<close>

definition allNames :: "matcher \<Rightarrow> string list \<Rightarrow> string list" where
  "allNames m scripts = concat (map (\<lambda>script. map (\<lambda>(t, gs). gs ! 0) (scanAll m script)) scripts)"

definition analyzeNaming :: "string list \<Rightarrow> CodePattern list" where
  "analyzeNaming scripts =
     (let classNames = allNames reClass scripts;
          classPatterns =
            (if length classNames > 0 then
               (let pascalCase = length (filter isPascalCase classNames);
                    percentPascal = real pascalCase / real (length classNames) * 100
                in if percentPascal > 80
                   then [\<lparr>pat_type = Naming, pattern = ''PascalCase for classes'',
                          frequency = pascalCase, confidence = percentPascal / 100,
                          examples = take 3 classNames\<rparr>]
                   else [])
             else []);
          methodNames = allNames reMethod scripts;
          methodPatterns =
            (if length methodNames > 0 then
               (let pascalCase = length (filter isPascalCase methodNames);
                    camelCase = length (filter isCamelCase methodNames)
                in if pascalCase > camelCase
                   then [\<lparr>pat_type = Naming, pattern = ''PascalCase for methods'',
                          frequency = pascalCase,
                          confidence = real pascalCase / real (length methodNames),
                          examples = take 3 (filter startsUpper methodNames)\<rparr>]
                   else if camelCase > pascalCase
                   then [\<lparr>pat_type = Naming, pattern = ''camelCase for methods'',
                          frequency = camelCase,
                          confidence = real camelCase / real (length methodNames),
                          examples = take 3 (filter startsLower methodNames)\<rparr>]
                   else [])
             else []);
          variableNames = allNames reVariable scripts;
          variablePatterns =
            (if length variableNames > 0 then
               (let camelCase = length (filter isCamelCase variableNames);
                    underscore = length (filter isUnderscoreCamel variableNames)
                in if real underscore > real camelCase * 0.5
                   then [\<lparr>pat_type = Naming, pattern = ''Underscore prefix for private fields'',
                          frequency = underscore,
                          confidence = real underscore / real (length variableNames),
                          examples = take 3 (filter (\<lambda>n. startsWith n ''_'') variableNames)\<rparr>]
                   else [])
             else [])
      in classPatterns @ methodPatterns @ variablePatterns)"

text \<open>\<open>findMostCommon\<close>: the first value to reach the highest count; the frequency map
  reads 0 for a value not yet seen.\<close>

fun findMostCommonLoop :: "(nat \<Rightarrow> nat) \<Rightarrow> nat \<Rightarrow> nat \<Rightarrow> nat list \<Rightarrow> nat" where
  "findMostCommonLoop freqs maxFreq mostCommon [] = mostCommon"
| "findMostCommonLoop freqs maxFreq mostCommon (v # vs) =
     (let freq = freqs v + 1
      in if freq > maxFreq then findMostCommonLoop (freqs(v := freq)) freq v vs
         else findMostCommonLoop (freqs(v := freq)) maxFreq mostCommon vs)"

definition findMostCommon :: "nat list \<Rightarrow> nat" where
  "findMostCommon arr = findMostCommonLoop (\<lambda>v. 0) 0 0 arr"

text \<open>The lengths of the leading white space \<open>/^(\s+)/\<close> of the lines that have some.\<close>

definition leadingSpaces :: "string \<Rightarrow> nat list" where
  "leadingSpaces script =
     concat (map (\<lambda>line. case many1 isSpace line of None \<Rightarrow> [] | Some (ws, r) \<Rightarrow> [length ws])
                 (splitOn (CHR 0x0A) script))"

definition analyzeFormatting :: "string list \<Rightarrow> CodePattern list" where
  "analyzeFormatting scripts =
     (let sameLine = sum_list (map (\<lambda>script. length (scanAll reParenBrace script)) scripts);
          newLine = sum_list (map (\<lambda>script. length (scanAll reParenNewlineBrace script)) scripts);
          bracePatterns =
            (if sameLine > newLine
             then [\<lparr>pat_type = Formatting, pattern = ''Same-line braces'', frequency = sameLine,
                    confidence = real sameLine / real (sameLine + newLine),
                    examples = [''method() {'', ''if (condition) {'']\<rparr>]
             else if newLine > sameLine
             then [\<lparr>pat_type = Formatting, pattern = ''New-line braces'', frequency = newLine,
                    confidence = real newLine / real (sameLine + newLine),
                    examples = [''method()'' @ [CHR 0x5C] @ ''n{'',
                                ''if (condition)'' @ [CHR 0x5C] @ ''n{'']\<rparr>]
             else []);
          indentationSizes = concat (map leadingSpaces scripts);
          indentPatterns =
            (if length indentationSizes > 0 then
               (let mostCommon = findMostCommon indentationSizes
                in [\<lparr>pat_type = Formatting, pattern = showNat mostCommon @ ''-space indentation'',
                      frequency = length (filter (\<lambda>s. s = mostCommon) indentationSizes),
                      confidence = 0.9,
                      examples = [replicate mostCommon (CHR '' '') @ ''code'']\<rparr>])
             else [])
      in bracePatterns @ indentPatterns)"

section \<open>Style transformer\<close>

text \<open>
  The engine bounds the length of a string: V8 allows \<open>2^29 - 24\<close> code units (Node's
  \<open>buffer.constants.MAX_STRING_LENGTH\<close>), and an operation whose result would be longer
  throws \<open>RangeError: Invalid string length\<close>. \<open>s.repeat(n)\<close> throws a \<open>RangeError\<close>
  for a negative count as well. \<open>repeatStr\<close>, \<open>concatStr\<close> and \<open>joinStr\<close> are
  \<open>repeat\<close>, \<open>+\<close> and \<open>join\<close> with these failures.
\<close>

definition maxStringLength :: nat where
  "maxStringLength = 536870888"

definition repeatStr :: "string \<Rightarrow> int \<Rightarrow> error + string" where
  "repeatStr s n =
     (if n < 0 \<or> length s * nat n > maxStringLength then Inl RangeError
      else Inr (concat (replicate (nat n) s)))"

definition concatStr :: "string \<Rightarrow> string \<Rightarrow> error + string" where
  "concatStr a b = (if length a + length b > maxStringLength then Inl RangeError else Inr (a @ b))"

definition joinStr :: "string \<Rightarrow> string list \<Rightarrow> error + string" where
  "joinStr sep xs =
     (if length (join sep xs) > maxStringLength then Inl RangeError else Inr (join sep xs))"

text \<open>\<open>reindent\<close>: the loop over the lines, with the indent level as it stands before the
  line.\<close>

fun reindentLines :: "int \<Rightarrow> int \<Rightarrow> string list \<Rightarrow> error + string list" where
  "reindentLines spaces indentLevel [] = Inr []"
| "reindentLines spaces indentLevel (line # rest) =
     (let trimmed = trim line;
          level1 = (if endsWith trimmed ''}'' then max 0 (indentLevel - 1) else indentLevel)
      in case repeatStr '' '' (level1 * spaces) of
           Inl e \<Rightarrow> Inl e
         | Inr indent \<Rightarrow>
             (case concatStr indent trimmed of
                Inl e \<Rightarrow> Inl e
              | Inr indented \<Rightarrow>
                  (case reindentLines spaces (if endsWith trimmed ''{'' then level1 + 1 else level1)
                          rest of
                     Inl e \<Rightarrow> Inl e
                   | Inr indentedLines \<Rightarrow> Inr (indented # indentedLines))))"

definition reindent :: "string \<Rightarrow> int \<Rightarrow> error + string" where
  "reindent code spaces =
     (case reindentLines spaces 0 (splitOn (CHR 0x0A) code) of
        Inl e \<Rightarrow> Inl e
      | Inr indentedLines \<Rightarrow> joinStr [CHR 0x0A] indentedLines)"

definition applyNaming :: "CodePattern \<Rightarrow> string \<Rightarrow> string" where
  "applyNaming p styledCode =
     (if includesStr (pattern p) ''underscore prefix''
      then replaceAll rePrivateField (\<lambda>t gs. ''private '' @ gs ! 0 @ '' _'' @ gs ! 1) styledCode
      else styledCode)"

definition applyFormatting :: "CodePattern \<Rightarrow> string \<Rightarrow> error + string" where
  "applyFormatting p styledCode =
     (let braced =
            (if includesStr (pattern p) ''new-line braces''
             then replaceAll reParenBrace (\<lambda>t gs. [CHR '')'', CHR 0x0A, CHR ''{'']) styledCode
             else if includesStr (pattern p) ''same-line braces''
             then replaceAll reParenNewlineBrace (\<lambda>t gs. '') {'') styledCode
             else styledCode)
      in if includesStr (pattern p) ''indentation''
         then reindent braced
                (int (case firstMatch reDigits (pattern p) of
                        None \<Rightarrow> 4
                      | Some (t, gs) \<Rightarrow> parseDigits t))
         else Inr braced)"

fun applyFormattings :: "CodePattern list \<Rightarrow> string \<Rightarrow> error + string" where
  "applyFormattings [] styledCode = Inr styledCode"
| "applyFormattings (p # ps) styledCode =
     (case applyFormatting p styledCode of
        Inl e \<Rightarrow> Inl e
      | Inr s \<Rightarrow> applyFormattings ps s)"

definition applyStyle :: "string \<Rightarrow> CodeStyleProfile \<Rightarrow> error + string" where
  "applyStyle code styleProfile =
     (let namingPatterns = filter (\<lambda>p. pat_type p = Naming) (patterns styleProfile);
          formattingPatterns = filter (\<lambda>p. pat_type p = Formatting) (patterns styleProfile)
      in applyFormattings formattingPatterns (fold applyNaming namingPatterns code))"


text \<open>Two examples: a corpus of three brace placements, two of them on a new line; and
  a corpus whose one field has the underscore prefix.\<close>

definition newlineCorpus :: "string list" where
  "newlineCorpus = [''f()'' @ [CHR 0x0A] @ ''{}g()'' @ [CHR 0x0A] @ ''{}h(){}'']"

definition underscoreCorpus :: "string list" where
  "underscoreCorpus = [''private int _hp;'']"

definition underscoreProfile :: CodeStyleProfile where
  "underscoreProfile =
     \<lparr>patterns = analyzeNaming underscoreCorpus, lastAnalyzed = 0, fileCount = 1,
      profile_confidence = 1\<rparr>"








section \<open>Paths\<close>

text \<open>
  \<open>path.resolve\<close>, \<open>path.join\<close>, \<open>path.normalize\<close> and \<open>path.basename\<close> of Node,
  for POSIX paths. \<open>normalizeSegments\<close> drops empty and \<open>.\<close> segments and lets \<open>..\<close>
  remove the segment before it; above the root of an absolute path \<open>..\<close> stays at the
  root, at the start of a relative path it is kept.
\<close>

fun normalizeSegments :: "bool \<Rightarrow> string list \<Rightarrow> string list \<Rightarrow> string list" where
  "normalizeSegments isAbs acc [] = rev acc"
| "normalizeSegments isAbs acc (seg # segs) =
     (if seg = [] \<or> seg = ''.'' then normalizeSegments isAbs acc segs
      else if seg = ''..'' then
        (case acc of
           [] \<Rightarrow> if isAbs then normalizeSegments isAbs [] segs
                 else normalizeSegments isAbs [''..''] segs
         | a # as \<Rightarrow> if a = ''..'' then normalizeSegments isAbs (''..'' # a # as) segs
                     else normalizeSegments isAbs as segs)
      else normalizeSegments isAbs (seg # acc) segs)"

definition resolvedSegments :: "string \<Rightarrow> string \<Rightarrow> string list" where
  "resolvedSegments cwd p =
     normalizeSegments True [] (splitOn (CHR ''/'') (if startsWith p ''/'' then p else cwd @ ''/'' @ p))"

definition resolve :: "string \<Rightarrow> string \<Rightarrow> string" where
  "resolve cwd p = CHR ''/'' # join ''/'' (resolvedSegments cwd p)"

definition normalize :: "string \<Rightarrow> string" where
  "normalize p =
     (if p = [] then ''.''
      else
        (let isAbsolute = startsWith p ''/'';
             trailingSeparator = endsWith p ''/'';
             body = join ''/'' (normalizeSegments isAbsolute [] (splitOn (CHR ''/'') p))
         in if body = [] then (if isAbsolute then ''/'' else if trailingSeparator then ''./'' else ''.'')
            else (if isAbsolute then ''/'' else []) @ body @ (if trailingSeparator then ''/'' else [])))"

definition pathJoin :: "string list \<Rightarrow> string" where
  "pathJoin parts =
     (let joined = join ''/'' (filter (\<lambda>p. p \<noteq> []) parts)
      in if joined = [] then ''.'' else normalize joined)"

definition basename :: "string \<Rightarrow> string" where
  "basename p =
     rev (takeWhile (\<lambda>c. c \<noteq> CHR ''/'') (dropWhile (\<lambda>c. c = CHR ''/'') (rev p)))"

section \<open>File system\<close>

text \<open>
  The file system the client reads: the working directory of the process, the directory
  tree below the root (finite, so that a recursive listing ends), and the outcome of
  \<open>fs.readFile\<close> and \<open>fs.stat\<close> for a path, either of which may fail.
\<close>

datatype dirtree = FileEntry | DirEntry "(string \<times> dirtree) list"

record FileStats =
  stat_size :: nat
  stat_created :: int
  stat_modified :: int
  stat_isDirectory :: bool

record filesystem =
  fs_cwd :: string
  fs_tree :: dirtree
  fs_readFile :: "string \<Rightarrow> error + string"
  fs_stat :: "string \<Rightarrow> error + FileStats"

fun treeLookup :: "dirtree \<Rightarrow> string list \<Rightarrow> dirtree option" where
  "treeLookup t [] = Some t"
| "treeLookup t (seg # segs) =
     (case t of
        FileEntry \<Rightarrow> None
      | DirEntry entries \<Rightarrow>
          (case map_of entries seg of None \<Rightarrow> None | Some child \<Rightarrow> treeLookup child segs))"

section \<open>Filesystem client\<close>

text \<open>The client: the allow-list, in insertion order and without duplicates as the
  \<open>Set\<close> of the source keeps it, and the watched directory of each watcher id.\<close>

record FilesystemMCPClient =
  allowedPaths :: "string list"
  watchers :: "string \<rightharpoonup> string"

definition addAllowedPath :: "filesystem \<Rightarrow> string \<Rightarrow> FilesystemMCPClient \<Rightarrow> FilesystemMCPClient" where
  "addAllowedPath fs dirPath client =
     (let r = resolve (fs_cwd fs) dirPath
      in if r \<in> set (allowedPaths client) then client
         else client\<lparr>allowedPaths := allowedPaths client @ [r]\<rparr>)"

definition isPathAllowed :: "filesystem \<Rightarrow> FilesystemMCPClient \<Rightarrow> string \<Rightarrow> bool" where
  "isPathAllowed fs client filePath =
     (let resolvedPath = resolve (fs_cwd fs) filePath
      in list_ex (\<lambda>allowedPath. startsWith resolvedPath allowedPath) (allowedPaths client))"

definition readFile :: "filesystem \<Rightarrow> FilesystemMCPClient \<Rightarrow> string \<Rightarrow> error + string" where
  "readFile fs client filePath =
     (if \<not> isPathAllowed fs client filePath then Inl (AccessDenied filePath)
      else fs_readFile fs filePath)"

definition getFileStats :: "filesystem \<Rightarrow> FilesystemMCPClient \<Rightarrow> string \<Rightarrow> error + FileStats" where
  "getFileStats fs client filePath =
     (if \<not> isPathAllowed fs client filePath then Inl (AccessDenied filePath)
      else fs_stat fs filePath)"

text \<open>
  \<open>listDirectory\<close>. The source recurses through the path of a subdirectory; the model
  recurses through the subtree that \<open>readdir\<close> of that path lists, and keeps the access
  check of each call. \<open>nameFilter\<close> is the test \<open>entry.name.match(options.filter)\<close>, absent
  when no filter is given.
\<close>

record ListOptions =
  recursive :: bool
  nameFilter :: "(string \<Rightarrow> bool) option"

fun listTree ::
    "filesystem \<Rightarrow> FilesystemMCPClient \<Rightarrow> ListOptions \<Rightarrow> string \<Rightarrow> dirtree \<Rightarrow> error + string list"
  and listEntries ::
    "filesystem \<Rightarrow> FilesystemMCPClient \<Rightarrow> ListOptions \<Rightarrow> string \<Rightarrow> (string \<times> dirtree) list
       \<Rightarrow> error + string list" where
  "listTree fs client opts dirPath FileEntry =
     (if \<not> isPathAllowed fs client dirPath then Inl (AccessDenied dirPath)
      else Inl (FsError dirPath))"
| "listTree fs client opts dirPath (DirEntry entries) =
     (if \<not> isPathAllowed fs client dirPath then Inl (AccessDenied dirPath)
      else listEntries fs client opts dirPath entries)"
| "listEntries fs client opts dirPath [] = Inr []"
| "listEntries fs client opts dirPath ((name, child) # rest) =
     (let fullPath = pathJoin [dirPath, name]
      in case child of
           DirEntry sub \<Rightarrow>
             if recursive opts then
               (case listTree fs client opts fullPath child of
                  Inl e \<Rightarrow> Inl e
                | Inr subFiles \<Rightarrow>
                    (case listEntries fs client opts dirPath rest of
                       Inl e \<Rightarrow> Inl e
                     | Inr files \<Rightarrow> Inr (subFiles @ files)))
             else listEntries fs client opts dirPath rest
         | FileEntry \<Rightarrow>
             if (case nameFilter opts of None \<Rightarrow> True | Some f \<Rightarrow> f name) then
               (case listEntries fs client opts dirPath rest of
                  Inl e \<Rightarrow> Inl e
                | Inr files \<Rightarrow> Inr (fullPath # files))
             else listEntries fs client opts dirPath rest)"

definition listDirectory ::
  "filesystem \<Rightarrow> FilesystemMCPClient \<Rightarrow> string \<Rightarrow> ListOptions \<Rightarrow> error + string list" where
  "listDirectory fs client dirPath opts =
     (if \<not> isPathAllowed fs client dirPath then Inl (AccessDenied dirPath)
      else case treeLookup (fs_tree fs) (resolvedSegments (fs_cwd fs) dirPath) of
             None \<Rightarrow> Inl (FsError dirPath)
           | Some t \<Rightarrow> listTree fs client opts dirPath t)"

definition findFiles ::
  "filesystem \<Rightarrow> FilesystemMCPClient \<Rightarrow> string \<Rightarrow> (string \<Rightarrow> bool) \<Rightarrow> error + string list" where
  "findFiles fs client dirPath filePattern =
     (if \<not> isPathAllowed fs client dirPath then Inl (AccessDenied dirPath)
      else case listDirectory fs client dirPath \<lparr>recursive = True, nameFilter = None\<rparr> of
             Inl e \<Rightarrow> Inl e
           | Inr files \<Rightarrow> Inr (filter filePattern files))"

record UnityScript =
  script_path :: string
  script_name :: string
  script_content :: string
  script_size :: nat
  script_modified :: int

text \<open>\<open>Promise.all\<close> over a list of tasks: the results in order when every task
  fulfils, a rejection when a task rejects. When several tasks reject, \<open>Promise.all\<close>
  rejects with the rejection that comes first in time; the model reports the first in
  list order, which is one of the possible outcomes, and nothing below depends on which
  rejection it is.\<close>

fun promiseAll :: "('a \<Rightarrow> error + 'b) \<Rightarrow> 'a list \<Rightarrow> error + 'b list" where
  "promiseAll f [] = Inr []"
| "promiseAll f (x # xs) =
     (case f x of
        Inl e \<Rightarrow> Inl e
      | Inr y \<Rightarrow> (case promiseAll f xs of Inl e \<Rightarrow> Inl e | Inr ys \<Rightarrow> Inr (y # ys)))"

definition loadScript :: "filesystem \<Rightarrow> FilesystemMCPClient \<Rightarrow> string \<Rightarrow> error + UnityScript" where
  "loadScript fs client filePath =
     (case readFile fs client filePath of
        Inl e \<Rightarrow> Inl e
      | Inr content \<Rightarrow>
          (case getFileStats fs client filePath of
             Inl e \<Rightarrow> Inl e
           | Inr stats \<Rightarrow>
               Inr \<lparr>script_path = filePath, script_name = basename filePath,
                    script_content = content, script_size = stat_size stats,
                    script_modified = stat_modified stats\<rparr>))"

definition getUnityScripts ::
  "filesystem \<Rightarrow> FilesystemMCPClient \<Rightarrow> string \<Rightarrow> error + UnityScript list" where
  "getUnityScripts fs client dirPath =
     (case findFiles fs client dirPath (\<lambda>file. endsWith file ''.cs'') of
        Inl e \<Rightarrow> Inl e
      | Inr scriptFiles \<Rightarrow> promiseAll (loadScript fs client) scriptFiles)"

definition getUnityScenes :: "filesystem \<Rightarrow> FilesystemMCPClient \<Rightarrow> string \<Rightarrow> error + string list" where
  "getUnityScenes fs client dirPath = findFiles fs client dirPath (\<lambda>file. endsWith file ''.unity'')"

definition getUnityPrefabs :: "filesystem \<Rightarrow> FilesystemMCPClient \<Rightarrow> string \<Rightarrow> error + string list" where
  "getUnityPrefabs fs client dirPath = findFiles fs client dirPath (\<lambda>file. endsWith file ''.prefab'')"

definition readProjectSettings ::
  "filesystem \<Rightarrow> FilesystemMCPClient \<Rightarrow> string \<Rightarrow> error + string" where
  "readProjectSettings fs client projectPath =
     (let versionPath = pathJoin [projectPath, ''ProjectSettings'', ''ProjectVersion.txt'']
      in if \<not> isPathAllowed fs client versionPath then Inl (AccessDenied versionPath)
         else case readFile fs client versionPath of
                Inl e \<Rightarrow> Inl e
              | Inr content \<Rightarrow>
                  Inr (case firstMatch reEditorVersion content of
                         None \<Rightarrow> ''unknown''
                       | Some (t, gs) \<Rightarrow> trim (gs ! 0)))"

text \<open>What the specification asks of the allow-list: a path under a root is the root
  itself or the root followed by further segments.\<close>

definition underRoot :: "string \<Rightarrow> string \<Rightarrow> bool" where
  "underRoot rootPath resolvedPath =
     (resolvedPath = rootPath \<or>
      startsWith resolvedPath (if rootPath = ''/'' then ''/'' else rootPath @ ''/''))"

definition outsideEveryRoot :: "filesystem \<Rightarrow> FilesystemMCPClient \<Rightarrow> string \<Rightarrow> bool" where
  "outsideEveryRoot fs client filePath =
     (\<not> list_ex (\<lambda>rootPath. underRoot rootPath (resolve (fs_cwd fs) filePath)) (allowedPaths client))"

text \<open>A file system with the project \<open>/home/u/game\<close> and, beside it, the directory
  \<open>/home/u/game-secrets\<close>; every file reads as \<open>secret\<close>.\<close>

definition siblingFs :: filesystem where
  "siblingFs =
     \<lparr>fs_cwd = ''/'',
      fs_tree = DirEntry [(''home'', DirEntry [(''u'', DirEntry
                   [(''game'', DirEntry []),
                    (''game-secrets'', DirEntry [(''key.txt'', FileEntry)])])])],
      fs_readFile = (\<lambda>p. Inr ''secret''),
      fs_stat = (\<lambda>p. Inr \<lparr>stat_size = 6, stat_created = 0, stat_modified = 0,
                           stat_isDirectory = False\<rparr>)\<rparr>"

definition gameClient :: FilesystemMCPClient where
  "gameClient = addAllowedPath siblingFs ''/home/u/game'' \<lparr>allowedPaths = [], watchers = Map.empty\<rparr>"

section \<open>Vector store client: writes\<close>

text \<open>
  The world an operation runs in and changes: the filesystem client, the index of the
  vector store (one record for each id), the calls made to the store so far, and the number
  of tokens \<open>nanoid()\<close> has returned. An operation returns its outcome together with the
  world it leaves, also when it throws.
\<close>

datatype storeCall = Upsert "PineconeRecord list" | DeleteOne string | DeleteMany queryFilter

record world =
  w_client :: FilesystemMCPClient
  w_index :: "string \<rightharpoonup> PineconeRecord"
  w_calls :: "storeCall list"
  w_nano :: nat

text \<open>
  What an operation reads and cannot change: the file system, the tokens of \<open>nanoid()\<close>
  in the order it returns them, the embedding provider, whether the store accepts an
  upsert of a batch, and the clock \<open>Date.now()\<close> (one reading for an operation).
\<close>

record environment =
  env_fs :: filesystem
  env_nanoid :: "nat \<Rightarrow> string"
  env_embed :: embedder
  env_accepts :: "PineconeRecord list \<Rightarrow> bool"
  env_now :: nat

type_synonym 'a io = "world \<Rightarrow> (error + 'a) \<times> world"

record IndexDocument =
  d_id :: string
  d_content :: string
  d_metadata :: VectorMetadata

definition embedDocument :: "embedder \<Rightarrow> IndexDocument \<Rightarrow> error + PineconeRecord" where
  "embedDocument generateEmbedding doc =
     (case generateEmbedding (d_content doc) of
        Inl e \<Rightarrow> Inl e
      | Inr embedding \<Rightarrow>
          Inr \<lparr>rec_id = d_id doc, rec_values = embedding, rec_content = d_content doc,
               rec_metadata = d_metadata doc\<rparr>)"

text \<open>\<open>index.upsert(batch)\<close>: a record replaces the record of the same id.\<close>

definition upsertRecords ::
  "PineconeRecord list \<Rightarrow> (string \<rightharpoonup> PineconeRecord) \<Rightarrow> (string \<rightharpoonup> PineconeRecord)" where
  "upsertRecords batch m = fold (\<lambda>r m. m(rec_id r \<mapsto> r)) batch m"

definition upsert :: "environment \<Rightarrow> PineconeRecord list \<Rightarrow> unit io" where
  "upsert env batch w =
     (if env_accepts env batch
      then (Inr (), w\<lparr>w_index := upsertRecords batch (w_index w),
                       w_calls := w_calls w @ [Upsert batch]\<rparr>)
      else (Inl VectorStoreError, w\<lparr>w_calls := w_calls w @ [Upsert batch]\<rparr>))"

function upsertLoop :: "environment \<Rightarrow> PineconeRecord list \<Rightarrow> nat \<Rightarrow> unit io" where
  "upsertLoop env vectors i w =
     (if i < length vectors then
        (case upsert env (take 100 (drop i vectors)) w of
           (Inl e, w') \<Rightarrow> (Inl e, w')
         | (Inr u, w') \<Rightarrow> upsertLoop env vectors (i + 100) w')
      else (Inr (), w))"
  by pat_completeness auto
termination
  by (relation "measure (\<lambda>(env, vectors, i, w). length vectors - i)") auto

declare upsertLoop.simps [simp del]

definition storeBatch :: "environment \<Rightarrow> IndexDocument list \<Rightarrow> unit io" where
  "storeBatch env documents w =
     (case promiseAll (embedDocument (env_embed env)) documents of
        Inl e \<Rightarrow> (Inl e, w)
      | Inr vectors \<Rightarrow> upsertLoop env vectors 0 w)"

definition deleteDocument :: "string \<Rightarrow> unit io" where
  "deleteDocument i w =
     (Inr (), w\<lparr>w_index := (w_index w)(i := None), w_calls := w_calls w @ [DeleteOne i]\<rparr>)"

section \<open>Indexing pipeline\<close>

record ProjectInfo =
  info_name :: string
  info_version :: string
  info_path :: string

definition getProjectInfo :: "filesystem \<Rightarrow> FilesystemMCPClient \<Rightarrow> string \<Rightarrow> ProjectInfo" where
  "getProjectInfo fs client projectPath =
     (case readProjectSettings fs client projectPath of
        Inr version \<Rightarrow>
          \<lparr>info_name = basename projectPath, info_version = version, info_path = projectPath\<rparr>
      | Inl e \<Rightarrow>
          \<lparr>info_name = basename projectPath, info_version = ''unknown'', info_path = projectPath\<rparr>)"

text \<open>The document of chunk \<open>i\<close> of a script; its id starts with the token that the
  \<open>i\<close>-th call of \<open>nanoid()\<close> from token number \<open>n\<close> on returns.\<close>

definition scriptDocument ::
  "environment \<Rightarrow> ProjectInfo \<Rightarrow> string \<Rightarrow> string \<Rightarrow> ScriptMetadata \<Rightarrow> int \<Rightarrow> nat \<Rightarrow> nat \<times> string
     \<Rightarrow> IndexDocument" where
  "scriptDocument env projectInfo path name metadata updated n ic =
     \<lparr>d_id = env_nanoid env (n + fst ic) @ ''-'' @ basename name @ ''-chunk-'' @ showNat (fst ic),
      d_content = snd ic,
      d_metadata =
        \<lparr>md_projectId = info_path projectInfo, md_projectName = info_name projectInfo,
         md_fileType = Script, md_filePath = path, md_language = ''csharp'',
         md_unityVersion = info_version projectInfo, md_className = sm_className metadata,
         md_namespace = sm_namespace metadata, md_methods = Some (sm_methods metadata),
         md_dependencies = Some (sm_dependencies metadata),
         md_createdAt = int (env_now env), md_updatedAt = updated\<rparr>\<rparr>"

text \<open>
  The \<open>try\<close> block of the loop of \<open>indexScripts\<close> for one script, from token number \<open>n\<close>:
  the documents it pushes and the next token number. Nothing in the block throws
  (\<open>parseScript\<close> catches its own errors, \<open>chunkScript\<close> and the template string cannot
  fail), so the block always completes.
\<close>

definition indexScriptBody ::
  "environment \<Rightarrow> ProjectInfo \<Rightarrow> UnityScript \<Rightarrow> nat \<Rightarrow> error + IndexDocument list \<times> nat" where
  "indexScriptBody env projectInfo script n =
     (let metadata = parseScript (script_content script) (script_path script);
          chunks = chunkScript (script_content script) defaultMaxChunkSize
      in Inr (map (scriptDocument env projectInfo (script_path script) (script_name script)
                     metadata (script_modified script) n) (enumerate 0 chunks),
              n + length chunks))"

text \<open>The loop over the scripts: documents so far, \<open>indexed\<close>, \<open>errors\<close>, next token number.\<close>

fun scriptLoop ::
  "environment \<Rightarrow> ProjectInfo \<Rightarrow> UnityScript list \<Rightarrow> IndexDocument list \<times> nat \<times> nat \<times> nat
     \<Rightarrow> IndexDocument list \<times> nat \<times> nat \<times> nat" where
  "scriptLoop env projectInfo [] acc = acc"
| "scriptLoop env projectInfo (script # rest) (documents, indexed, errors, n) =
     (case indexScriptBody env projectInfo script n of
        Inr (docs, n') \<Rightarrow> scriptLoop env projectInfo rest (documents @ docs, indexed + 1, errors, n')
      | Inl e \<Rightarrow> scriptLoop env projectInfo rest (documents, indexed, errors + 1, n))"

record PassResult =
  pr_total :: nat
  pr_indexed :: nat
  pr_errors :: nat

definition indexScripts :: "environment \<Rightarrow> string \<Rightarrow> ProjectInfo \<Rightarrow> PassResult io" where
  "indexScripts env projectPath projectInfo w =
     (let scriptsPath = pathJoin [projectPath, ''Assets'', ''Scripts'']
      in case getUnityScripts (env_fs env) (w_client w) scriptsPath of
           Inl e \<Rightarrow> (Inl e, w)
         | Inr scripts \<Rightarrow>
             (case scriptLoop env projectInfo scripts ([], 0, 0, w_nano w) of
                (documents, indexed, errors, n) \<Rightarrow>
                  (let result = \<lparr>pr_total = length scripts, pr_indexed = indexed, pr_errors = errors\<rparr>
                   in if documents \<noteq> [] then
                        (case storeBatch env documents (w\<lparr>w_nano := n\<rparr>) of
                           (Inl e, w') \<Rightarrow> (Inl e, w')
                         | (Inr u, w') \<Rightarrow> (Inr result, w'))
                      else (Inr result, w\<lparr>w_nano := n\<rparr>))))"

text \<open>The placeholder document of a scene or prefab, number \<open>i\<close> of its list.\<close>

definition assetDocument ::
  "environment \<Rightarrow> ProjectInfo \<Rightarrow> fileType \<Rightarrow> string \<Rightarrow> nat \<Rightarrow> nat \<times> string \<Rightarrow> IndexDocument" where
  "assetDocument env projectInfo ftype label n ia =
     \<lparr>d_id = env_nanoid env (n + fst ia) @ ''-'' @ basename (snd ia),
      d_content = label @ basename (snd ia),
      d_metadata =
        \<lparr>md_projectId = info_path projectInfo, md_projectName = info_name projectInfo,
         md_fileType = ftype, md_filePath = snd ia, md_language = ''unity'',
         md_unityVersion = info_version projectInfo, md_className = None,
         md_namespace = None, md_methods = None, md_dependencies = None,
         md_createdAt = int (env_now env), md_updatedAt = int (env_now env)\<rparr>\<rparr>"

definition indexAssets ::
  "environment \<Rightarrow> ProjectInfo \<Rightarrow> fileType \<Rightarrow> string \<Rightarrow> string list \<Rightarrow> PassResult io" where
  "indexAssets env projectInfo ftype label assets w =
     (let documents = map (assetDocument env projectInfo ftype label (w_nano w)) (enumerate 0 assets);
          result = \<lparr>pr_total = length assets, pr_indexed = length assets, pr_errors = 0\<rparr>;
          w1 = w\<lparr>w_nano := w_nano w + length assets\<rparr>
      in if documents \<noteq> [] then
           (case storeBatch env documents w1 of
              (Inl e, w') \<Rightarrow> (Inl e, w')
            | (Inr u, w') \<Rightarrow> (Inr result, w'))
         else (Inr result, w1))"

definition indexScenes :: "environment \<Rightarrow> string \<Rightarrow> ProjectInfo \<Rightarrow> PassResult io" where
  "indexScenes env projectPath projectInfo w =
     (case getUnityScenes (env_fs env) (w_client w) projectPath of
        Inl e \<Rightarrow> (Inl e, w)
      | Inr scenes \<Rightarrow> indexAssets env projectInfo Scene ''Unity scene: '' scenes w)"

definition indexPrefabs :: "environment \<Rightarrow> string \<Rightarrow> ProjectInfo \<Rightarrow> PassResult io" where
  "indexPrefabs env projectPath projectInfo w =
     (case getUnityPrefabs (env_fs env) (w_client w) projectPath of
        Inl e \<Rightarrow> (Inl e, w)
      | Inr prefabs \<Rightarrow> indexAssets env projectInfo Prefab ''Unity prefab: '' prefabs w)"

record IndexResult =
  totalFiles :: nat
  indexed :: nat
  errors :: nat

definition indexProject :: "environment \<Rightarrow> string \<Rightarrow> IndexResult io" where
  "indexProject env projectPath w =
     (let w0 = w\<lparr>w_client := addAllowedPath (env_fs env) projectPath (w_client w)\<rparr>;
          projectInfo = getProjectInfo (env_fs env) (w_client w0) projectPath
      in case indexScripts env projectPath projectInfo w0 of
           (Inl e, w1) \<Rightarrow> (Inl e, w1)
         | (Inr scriptResult, w1) \<Rightarrow>
             (case indexScenes env projectPath projectInfo w1 of
                (Inl e, w2) \<Rightarrow> (Inl e, w2)
              | (Inr sceneResult, w2) \<Rightarrow>
                  (case indexPrefabs env projectPath projectInfo w2 of
                     (Inl e, w3) \<Rightarrow> (Inl e, w3)
                   | (Inr prefabResult, w3) \<Rightarrow>
                       (Inr \<lparr>totalFiles = pr_total scriptResult + pr_total sceneResult
                                            + pr_total prefabResult,
                             indexed = pr_indexed scriptResult + pr_indexed sceneResult
                                         + pr_indexed prefabResult,
                             errors = pr_errors scriptResult + pr_errors sceneResult
                                        + pr_errors prefabResult\<rparr>, w3))))"

section \<open>Incremental index maintainer\<close>

datatype fileEvent = Add | Change | Unlink

definition watchDirectory ::
  "filesystem \<Rightarrow> nat \<Rightarrow> string \<Rightarrow> FilesystemMCPClient \<Rightarrow> error + string \<times> FilesystemMCPClient" where
  "watchDirectory fs now dirPath client =
     (if \<not> isPathAllowed fs client dirPath then Inl (AccessDenied dirPath)
      else (let watcherId = ''watcher-'' @ showNat now
            in Inr (watcherId, client\<lparr>watchers := (watchers client)(watcherId \<mapsto> dirPath)\<rparr>)))"

definition stopWatchingClient :: "string \<Rightarrow> FilesystemMCPClient \<Rightarrow> FilesystemMCPClient" where
  "stopWatchingClient watcherId client =
     (case watchers client watcherId of
        None \<Rightarrow> client
      | Some dir \<Rightarrow> client\<lparr>watchers := (watchers client)(watcherId := None)\<rparr>)"

text \<open>
  The callback that \<open>watchProject\<close> registers, called by the watcher with the path and
  the kind of each event. Whatever the re-indexing throws is caught, so the callback
  always completes; what the store took before a failure stays.
\<close>

definition watchCallback ::
  "environment \<Rightarrow> string \<Rightarrow> (string \<Rightarrow> unit io) option \<Rightarrow> string \<Rightarrow> fileEvent \<Rightarrow> unit io" where
  "watchCallback env projectPath onChange path event w =
     (if endsWith path ''.cs'' \<and> event \<noteq> Unlink then
        (case readFile (env_fs env) (w_client w) path of
           Inl e \<Rightarrow> (Inr (), w)
         | Inr content \<Rightarrow>
             (let projectInfo = getProjectInfo (env_fs env) (w_client w) projectPath;
                  metadata = parseScript content path;
                  chunks = chunkScript content defaultMaxChunkSize;
                  documents = map (scriptDocument env projectInfo path path metadata
                                     (int (env_now env)) (w_nano w)) (enumerate 0 chunks)
              in case storeBatch env documents (w\<lparr>w_nano := w_nano w + length chunks\<rparr>) of
                   (Inl e, w') \<Rightarrow> (Inr (), w')
                 | (Inr u, w') \<Rightarrow>
                     (case onChange of
                        None \<Rightarrow> (Inr (), w')
                      | Some notify \<Rightarrow>
                          (case notify path w' of
                             (Inl e, w'') \<Rightarrow> (Inr (), w'')
                           | (Inr u', w'') \<Rightarrow> (Inr (), w'')))))
      else if event = Unlink then (Inr (), w)
      else (Inr (), w))"

definition watchProject :: "environment \<Rightarrow> string \<Rightarrow> string io" where
  "watchProject env projectPath w =
     (let client = addAllowedPath (env_fs env) projectPath (w_client w)
      in case watchDirectory (env_fs env) (env_now env) projectPath client of
           Inl e \<Rightarrow> (Inl e, w\<lparr>w_client := client\<rparr>)
         | Inr (watcherId, client') \<Rightarrow> (Inr watcherId, w\<lparr>w_client := client'\<rparr>))"

definition stopWatching :: "string \<Rightarrow> unit io" where
  "stopWatching watcherId w = (Inr (), w\<lparr>w_client := stopWatchingClient watcherId (w_client w)\<rparr>)"

section \<open>Example project\<close>

text \<open>
  The project \<open>/game\<close> with eleven scripts \<open>S00.cs\<close> to \<open>S10.cs\<close> under
  \<open>Assets/Scripts\<close>; reading \<open>S05.cs\<close> fails, every other script reads as
  \<open>class A {}\<close>.
\<close>

definition scriptNames :: "string list" where
  "scriptNames = [''S00.cs'', ''S01.cs'', ''S02.cs'', ''S03.cs'', ''S04.cs'', ''S05.cs'',
                  ''S06.cs'', ''S07.cs'', ''S08.cs'', ''S09.cs'', ''S10.cs'']"

definition projectTree :: "string list \<Rightarrow> dirtree" where
  "projectTree names =
     DirEntry [(''game'', DirEntry [(''Assets'', DirEntry
        [(''Scripts'', DirEntry (map (\<lambda>n. (n, FileEntry)) names))])])]"

definition plainStats :: FileStats where
  "plainStats = \<lparr>stat_size = 10, stat_created = 0, stat_modified = 0, stat_isDirectory = False\<rparr>"

definition unreadableFs :: filesystem where
  "unreadableFs =
     \<lparr>fs_cwd = ''/'', fs_tree = projectTree scriptNames,
      fs_readFile = (\<lambda>p. if p = ''/game/Assets/Scripts/S05.cs'' then Inl (FsError p)
                          else Inr ''class A {}''),
      fs_stat = (\<lambda>p. Inr plainStats)\<rparr>"

text \<open>Tokens of 21 characters, all different: the number of the token in unary, padded.\<close>

definition unaryToken :: "nat \<Rightarrow> string" where
  "unaryToken k = replicate k (CHR ''x'') @ replicate (21 - k) (CHR ''_'')"

definition exampleEnv :: "filesystem \<Rightarrow> environment" where
  "exampleEnv fs =
     \<lparr>env_fs = fs, env_nanoid = unaryToken, env_embed = exampleEmbedder,
      env_accepts = (\<lambda>batch. True), env_now = 1000\<rparr>"

definition emptyWorld :: world where
  "emptyWorld =
     \<lparr>w_client = \<lparr>allowedPaths = [], watchers = Map.empty\<rparr>, w_index = Map.empty,
      w_calls = [], w_nano = 0\<rparr>"

definition readableFs :: filesystem where
  "readableFs =
     \<lparr>fs_cwd = ''/'', fs_tree = projectTree [''A.cs'', ''B.cs''],
      fs_readFile = (\<lambda>p. Inr ''class A {}''),
      fs_stat = (\<lambda>p. Inr plainStats)\<rparr>"

definition gameRootClient :: FilesystemMCPClient where
  "gameRootClient = \<lparr>allowedPaths = [''/game''], watchers = Map.empty\<rparr>"

section \<open>Document ids and tokens\<close>

text \<open>
  \<open>nanoid()\<close> returns random tokens of one length (21 characters). \<open>freshTokens tok n\<close>
  says so of the first \<open>n\<close> tokens: they are pairwise different and 21 characters
  long. \<open>idsFrom tok n docs\<close>: the id of document number \<open>j\<close> of the list starts with
  token number \<open>n + j\<close>. \<open>upsertedIds\<close>: the ids of the records of all upsert calls, in order.
  \<open>projectDocCount\<close>: the number of documents one run over a project builds, one for each
  chunk of each script, each scene and each prefab.
\<close>

definition freshTokens :: "(nat \<Rightarrow> string) \<Rightarrow> nat \<Rightarrow> bool" where
  "freshTokens tok n =
     (distinct (map tok [0..<n]) \<and> list_all (\<lambda>k. length (tok k) = 21) [0..<n])"

definition idsFrom :: "(nat \<Rightarrow> string) \<Rightarrow> nat \<Rightarrow> IndexDocument list \<Rightarrow> bool" where
  "idsFrom tok n docs = (\<forall>j<length docs. \<exists>s. d_id (docs ! j) = tok (n + j) @ s)"

definition upsertedIds :: "storeCall list \<Rightarrow> string list" where
  "upsertedIds calls =
     concat (map (\<lambda>c. case c of Upsert batch \<Rightarrow> map rec_id batch | DeleteOne i \<Rightarrow> []
                              | DeleteMany f \<Rightarrow> []) calls)"

definition projectDocCount :: "filesystem \<Rightarrow> FilesystemMCPClient \<Rightarrow> string \<Rightarrow> nat" where
  "projectDocCount fs client projectPath =
     (case getUnityScripts fs client (pathJoin [projectPath, ''Assets'', ''Scripts'']) of
        Inl e \<Rightarrow> 0
      | Inr scripts \<Rightarrow>
          sum_list (map (\<lambda>s. length (chunkScript (script_content s) defaultMaxChunkSize)) scripts))
     + (case getUnityScenes fs client projectPath of Inl e \<Rightarrow> 0 | Inr scenes \<Rightarrow> length scenes)
     + (case getUnityPrefabs fs client projectPath of Inl e \<Rightarrow> 0 | Inr prefabs \<Rightarrow> length prefabs)"

text \<open>\<open>stored tok w w' docs\<close>: from world \<open>w\<close> to world \<open>w'\<close> exactly the documents
  \<open>docs\<close> were built, with the next tokens of \<open>w\<close>, and upserted; the client is the same.\<close>

definition stored :: "(nat \<Rightarrow> string) \<Rightarrow> world \<Rightarrow> world \<Rightarrow> IndexDocument list \<Rightarrow> bool" where
  "stored tok w w' docs =
     (idsFrom tok (w_nano w) docs \<and>
      w_nano w' = w_nano w + length docs \<and>
      dom (w_index w') = dom (w_index w) \<union> set (map d_id docs) \<and>
      upsertedIds (w_calls w') = upsertedIds (w_calls w) @ map d_id docs \<and>
      w_client w' = w_client w)"

text \<open>The number of positions of a text at which an expression matches.\<close>

fun matchPositions :: "matcher \<Rightarrow> string \<Rightarrow> nat" where
  "matchPositions m [] = 0"
| "matchPositions m (c # cs) = (if m (c # cs) = None then 0 else 1) + matchPositions m cs"



section \<open>Retrieval engine: properties\<close>

lemma startsWith_append: "startsWith (k @ s) k"
  by (induction k) auto

text \<open>
  C5. Intent classification is total and returns one of the five intents: it is the first
  bucket, in the order code-generation, explanation, debugging, optimization, that has a
  keyword in the lower-cased query, and general when no bucket has one. The query
  "Create a new enemy AI script" is classified as code-generation.
\<close>

theorem analyzeQueryIntent_first_bucket:
  "intent_type (analyzeQueryIntent query) = firstMatchingBucket query \<and>
   intent_type (analyzeQueryIntent query)
     \<in> {CodeGeneration, Explanation, Debugging, Optimization, General} \<and>
   intent_type (analyzeQueryIntent ''Create a new enemy AI script'') = CodeGeneration"
proof (intro conjI)
  show "intent_type (analyzeQueryIntent query) = firstMatchingBucket query"
    by (simp add: analyzeQueryIntent_def firstMatchingBucket_def intentBuckets_def Let_def)
next
  show "intent_type (analyzeQueryIntent query)
          \<in> {CodeGeneration, Explanation, Debugging, Optimization, General}"
    by (cases "intent_type (analyzeQueryIntent query)") simp_all
next
  have "toLowerCase ''Create a new enemy AI script'' = ''create a new enemy ai script''"
    by (simp add: toLowerCase_def toLowerChar_def lowerTable_def)
  then show "intent_type (analyzeQueryIntent ''Create a new enemy AI script'') = CodeGeneration"
    by (simp add: analyzeQueryIntent_def Let_def)
qed

lemma toSearchResult_kept:
  assumes "keepMatch minS m"
  shows "\<exists>s. match_score m = Some s \<and> s \<noteq> 0 \<and> minS \<le> s \<and> score (toSearchResult m) = s \<and>
             relevance (toSearchResult m) =
               (if s > 0.85 then High else if s > 0.75 then Medium else Low)"
  using assms
  by (cases "match_score m") (simp_all add: keepMatch_def toSearchResult_def orDefault_def)

lemma keepMatch_default:
  "keepMatch 0.7 m = (case match_score m of None \<Rightarrow> False | Some s \<Rightarrow> 0.7 \<le> s)"
  by (cases "match_score m") (auto simp: keepMatch_def)

text \<open>
  C3. Under the default threshold (no \<open>minScore\<close> option), the results of a search are
  exactly the matches of the index whose score is present and at least 0.7, so every match
  below 0.7 is excluded; every result has score \<open>> 0.85\<close> and band high, or score in
  \<open>(0.75, 0.85]\<close> and band medium, or score \<open>\<le> 0.75\<close> and band low.
\<close>

theorem search_default_threshold_bands:
  assumes "defaultThreshold options"
    and "search generateEmbedding indexQuery query options = Inr results"
  shows "(\<exists>v k f matches. generateEmbedding query = Inr v \<and> indexQuery v k f = Inr matches \<and>
            results = map toSearchResult
              (filter (\<lambda>m. case match_score m of None \<Rightarrow> False | Some s \<Rightarrow> 0.7 \<le> s) matches)) \<and>
         (\<forall>r \<in> set results.
            0.7 \<le> score r \<and>
            (score r > 0.85 \<longrightarrow> relevance r = High) \<and>
            (0.75 < score r \<and> score r \<le> 0.85 \<longrightarrow> relevance r = Medium) \<and>
            (score r \<le> 0.75 \<longrightarrow> relevance r = Low))"
proof -
  have thr: "orDefault (case options of None \<Rightarrow> None | Some ops \<Rightarrow> minScore ops) (0.7::real) = 0.7"
    using assms(1) by (cases options) (simp_all add: defaultThreshold_def orDefault_def)
  obtain v where v: "generateEmbedding query = Inr v"
    using assms(2) by (cases "generateEmbedding query") (simp_all add: search_def Let_def)
  define k where "k = orDefault (case options of None \<Rightarrow> None | Some ops \<Rightarrow> topK ops) (5::nat)"
  define f where "f = (case options of None \<Rightarrow> None | Some ops \<Rightarrow> filter_opt ops)"
  obtain matches where ms: "indexQuery v k f = Inr matches"
    using assms(2) v by (cases "indexQuery v k f") (simp_all add: search_def Let_def k_def f_def)
  have res: "results = map toSearchResult (filter (keepMatch 0.7) matches)"
    using assms(2) v ms thr by (simp add: search_def Let_def k_def f_def)
  have bands: "0.7 \<le> score r \<and>
            (score r > 0.85 \<longrightarrow> relevance r = High) \<and>
            (0.75 < score r \<and> score r \<le> 0.85 \<longrightarrow> relevance r = Medium) \<and>
            (score r \<le> 0.75 \<longrightarrow> relevance r = Low)" if "r \<in> set results" for r
  proof -
    from that res obtain m where m: "keepMatch 0.7 m" "r = toSearchResult m"
      by auto
    from toSearchResult_kept [OF m(1)] m(2) show ?thesis
      by auto
  qed
  have "results = map toSearchResult
          (filter (\<lambda>m. case match_score m of None \<Rightarrow> False | Some s \<Rightarrow> 0.7 \<le> s) matches)"
    using res by (simp add: keepMatch_default cong: filter_cong)
  with v ms bands show ?thesis
    by blast
qed

theorem search_default_threshold_bands_witness:
  "defaultThreshold None \<and>
   (\<exists>results. search exampleEmbedder exampleIndexQuery ''player movement'' None = Inr results \<and>
      map (doc_id \<circ> document) results = [''a'', ''b'', ''c''] \<and>
      map relevance results = [High, Medium, Low] \<and>
      (\<forall>r \<in> set results. 0.7 \<le> score r))"
proof -
  have h1: "defaultThreshold None"
    by (simp add: defaultThreshold_def)
  have h2: "search exampleEmbedder exampleIndexQuery ''player movement'' None =
              Inr (map toSearchResult (take 3 exampleMatches))"
    by (simp add: search_def exampleEmbedder_def exampleIndexQuery_def exampleMatches_def
        exampleMatch_def keepMatch_def orDefault_def)
  have ids: "map (doc_id \<circ> document) (map toSearchResult (take 3 exampleMatches)) = [''a'', ''b'', ''c'']"
    by (simp add: exampleMatches_def exampleMatch_def toSearchResult_def Let_def)
  have bands: "map relevance (map toSearchResult (take 3 exampleMatches)) = [High, Medium, Low]"
    by (simp add: exampleMatches_def exampleMatch_def toSearchResult_def orDefault_def)
  have above: "\<forall>r \<in> set (map toSearchResult (take 3 exampleMatches)). 0.7 \<le> score r"
    using search_default_threshold_bands [OF h1 h2] by (elim conjE) simp
  show ?thesis
  proof (intro conjI exI [of _ "map toSearchResult (take 3 exampleMatches)"])
    show "defaultThreshold None" by (rule h1)
    show "search exampleEmbedder exampleIndexQuery ''player movement'' None =
            Inr (map toSearchResult (take 3 exampleMatches))" by (rule h2)
    show "map (doc_id \<circ> document) (map toSearchResult (take 3 exampleMatches)) = [''a'', ''b'', ''c'']"
      by (rule ids)
    show "map relevance (map toSearchResult (take 3 exampleMatches)) = [High, Medium, Low]"
      by (rule bands)
    show "\<forall>r \<in> set (map toSearchResult (take 3 exampleMatches)). 0.7 \<le> score r"
      by (rule above)
  qed
qed

section \<open>Chunker: properties\<close>

lemma length_trim_le: "length (trim s) \<le> length s"
proof -
  have "length (dropWhile isSpace (rev (dropWhile isSpace s))) \<le> length (rev (dropWhile isSpace s))"
    by (rule length_dropWhile_le)
  then have "length (trim s) \<le> length (dropWhile isSpace s)"
    by (simp add: trim_def)
  also have "\<dots> \<le> length s"
    by (rule length_dropWhile_le)
  finally show ?thesis .
qed

text \<open>Invariant of the accumulation loop: the buffer is empty, or no longer than \<open>N\<close>, or
  one single piece; so is every chunk it flushes, before trimming.\<close>

lemma accumulate_chunks:
  assumes "c \<in> set (accumulate N cur ms)"
    and "cur = [] \<or> int (length cur) \<le> N \<or> cur \<in> P"
    and "set ms \<subseteq> P"
  shows "int (length c) \<le> N \<or> (\<exists>p \<in> P. N < int (length p) \<and> c = trim p)"
  using assms
proof (induction ms arbitrary: cur)
  case Nil
  then have c: "c = trim cur" and ne: "cur \<noteq> []"
    by (simp_all split: if_splits)
  show ?case
  proof (cases "int (length cur) \<le> N")
    case True
    with length_trim_le [of cur] c show ?thesis by simp
  next
    case False
    with Nil.prems(2) ne have "cur \<in> P" "N < int (length cur)" by auto
    with c show ?thesis by blast
  qed
next
  case (Cons m ms)
  show ?case
  proof (cases "int (length (cur @ m)) \<le> N")
    case True
    with Cons.prems have "c \<in> set (accumulate N (cur @ m) ms)"
      by simp
    moreover from True have "cur @ m = [] \<or> int (length (cur @ m)) \<le> N \<or> cur @ m \<in> P"
      by simp
    moreover from Cons.prems(3) have "set ms \<subseteq> P"
      by simp
    ultimately show ?thesis
      by (rule Cons.IH)
  next
    case False
    with Cons.prems(1) have "(c = trim cur \<and> cur \<noteq> []) \<or> c \<in> set (accumulate N m ms)"
      by (auto split: if_splits)
    then show ?thesis
    proof
      assume "c = trim cur \<and> cur \<noteq> []"
      then have c: "c = trim cur" and ne: "cur \<noteq> []"
        by simp_all
      show ?thesis
      proof (cases "int (length cur) \<le> N")
        case True
        with length_trim_le [of cur] c show ?thesis by simp
      next
        case False
        with Cons.prems(2) ne have "cur \<in> P" "N < int (length cur)" by auto
        with c show ?thesis by blast
      qed
    next
      assume "c \<in> set (accumulate N m ms)"
      moreover from Cons.prems(3) have "m = [] \<or> int (length m) \<le> N \<or> m \<in> P" "set ms \<subseteq> P"
        by simp_all
      ultimately show ?thesis
        by (rule Cons.IH)
    qed
  qed
qed

lemma chunkSection_chunks:
  assumes "c \<in> set (chunkSection N sec)"
  shows "int (length c) \<le> N \<or>
         (\<exists>p \<in> set (methodSections sec). N < int (length p) \<and> c = trim p)"
proof (cases "int (length sec) \<le> N")
  case True
  with assms have "c = trim sec"
    by (simp add: chunkSection_def)
  with True length_trim_le [of sec] show ?thesis
    by simp
next
  case False
  with assms have "c \<in> set (accumulate N [] (methodSections sec))"
    by (simp add: chunkSection_def)
  then show ?thesis
    by (rule accumulate_chunks) simp_all
qed

text \<open>
  C2. For every text and every maximum \<open>N\<close>, a chunk of \<open>chunkScript\<close> is no longer than
  \<open>N\<close>, or it is one single piece longer than \<open>N\<close>, trimmed: a method section of a class
  section (the class section itself when it has no method boundary). A chunk accumulated
  from several pieces is never longer than \<open>N\<close>.
\<close>

theorem chunkScript_size_bound:
  "\<forall>c \<in> set (chunkScript content N).
     int (length c) \<le> N \<or>
     (\<exists>sec \<in> set (classSections content). \<exists>piece \<in> set (methodSections sec).
        N < int (length piece) \<and> c = trim piece)"
proof
  fix c
  assume "c \<in> set (chunkScript content N)"
  then obtain sec where s: "sec \<in> set (classSections content)"
    and c: "c \<in> set (chunkSection N sec)"
    by (auto simp: chunkScript_def)
  from chunkSection_chunks [OF c] s
  show "int (length c) \<le> N \<or>
     (\<exists>sec \<in> set (classSections content). \<exists>piece \<in> set (methodSections sec).
        N < int (length piece) \<and> c = trim piece)"
    by blast
qed


lemmas charClasses = isSpace_def isWord_def isAlnum_def isLowerAZ_def isUpperAZ_def isDigit_def
  charCode_def

theorem chunkScript_size_bound_witness:
  "''public int F() {} }'' \<in> set (chunkScript exampleScript 12) \<and>
   12 < int (length ''public int F() {} }'') \<and>
   (\<exists>sec \<in> set (classSections exampleScript). \<exists>piece \<in> set (methodSections sec).
      12 < int (length piece) \<and> ''public int F() {} }'' = trim piece)"
proof -
  have cs: "classSections exampleScript = [''class A {}  '', ''class Big { public int F() {} }'']"
    by (simp add: classSections_def exampleScript_def jsSplit_def lookahead_def reClass_def
        lit_def many1_def charClasses consumed_def)
  have ms: "methodSections ''class Big { public int F() {} }'' =
              [''class Big { '', ''public int F() {} }'']"
    by (simp add: methodSections_def jsSplit_def lookahead_def reMethod_def lit_def many1_def
        many0_def charClasses consumed_def)
  have chunks: "chunkScript exampleScript 12 =
                  [''class A {}'', ''class Big {'', ''public int F() {} }'']"
    by (simp add: chunkScript_def chunkSection_def cs ms trim_def charClasses)
  have mem: "''public int F() {} }'' \<in> set (chunkScript exampleScript 12)"
    by (simp add: chunks)
  have long: "\<not> int (length ''public int F() {} }'') \<le> 12"
    by simp
  from chunkScript_size_bound [of exampleScript 12] mem long
  show ?thesis
    by auto
qed

section \<open>Style transformer: properties\<close>


















section \<open>Style analyzer: properties\<close>

lemmas matcherDefs = lit_def many1_def many0_def consumed_def lookahead_def

text \<open>
  C4. On the corpus \<open>f()\n{}g()\n{}h(){}\<close>, with two opening braces on the line after
  the parenthesis and one on the same line, the expression \<open>\)\s*{\<close> counts all three
  (its \<open>\s*\<close> spans the line feed), so the analysis emits "Same-line braces" with
  confidence 3/5 and no "New-line braces" pattern.
\<close>

theorem analyzeFormatting_newline_majority:
  "sum_list (map (\<lambda>script. length (scanAll reParenNewlineBrace script)) newlineCorpus) = 2 \<and>
   sum_list (map (\<lambda>script. length (scanAll reParenBrace script)) newlineCorpus) = 3 \<and>
   map pattern (analyzeFormatting newlineCorpus) = [''Same-line braces''] \<and>
   map confidence (analyzeFormatting newlineCorpus) = [3 / 5]"
proof -
  have nl: "sum_list (map (\<lambda>script. length (scanAll reParenNewlineBrace script)) newlineCorpus) = 2"
    by (simp add: newlineCorpus_def reParenNewlineBrace_def matcherDefs charClasses)
  have sl: "sum_list (map (\<lambda>script. length (scanAll reParenBrace script)) newlineCorpus) = 3"
    by (simp add: newlineCorpus_def reParenBrace_def matcherDefs charClasses)
  have ind: "concat (map leadingSpaces newlineCorpus) = []"
    by (simp add: newlineCorpus_def leadingSpaces_def matcherDefs charClasses)
  show ?thesis
    by (simp add: analyzeFormatting_def Let_def nl sl ind)
qed

text \<open>
  C9. The naming analysis of a corpus whose one field is \<open>_hp\<close> yields the pattern
  "Underscore prefix for private fields"; \<open>applyStyle\<close> looks for the text
  "underscore prefix", which that name does not include, and leaves
  \<open>private int speed;\<close> as it is.
\<close>

theorem applyStyle_analyzed_underscore_profile:
  "map pattern (patterns underscoreProfile) = [''Underscore prefix for private fields''] \<and>
   applyStyle ''private int speed;'' underscoreProfile = Inr ''private int speed;''"
proof -
  have names: "allNames reVariable underscoreCorpus = [''_hp'']"
    by (simp add: allNames_def underscoreCorpus_def reVariable_def matcherDefs charClasses)
  have classes: "allNames reClass underscoreCorpus = []"
    by (simp add: allNames_def underscoreCorpus_def reClass_def matcherDefs charClasses)
  have meths: "allNames reMethod underscoreCorpus = []"
    by (simp add: allNames_def underscoreCorpus_def reMethod_def matcherDefs charClasses)
  have pats: "analyzeNaming underscoreCorpus =
      [\<lparr>pat_type = Naming, pattern = ''Underscore prefix for private fields'', frequency = 1,
        confidence = 1, examples = [''_hp'']\<rparr>]"
    by (simp add: analyzeNaming_def Let_def names classes meths isCamelCase_def
        isUnderscoreCamel_def charClasses)
  have noinc: "\<not> includesStr ''Underscore prefix for private fields'' ''underscore prefix''"
    by simp
  show ?thesis
    by (simp add: underscoreProfile_def pats applyStyle_def applyNaming_def noinc)
qed
section \<open>Filesystem client: properties\<close>

lemma startsWith_prefix: "startsWith s (a @ b) \<Longrightarrow> startsWith s a"
  by (induction s a rule: startsWith.induct) auto

lemma startsWith_refl: "startsWith s s"
  by (induction s) auto

lemma underRoot_startsWith: "underRoot r p \<Longrightarrow> startsWith p r"
  unfolding underRoot_def
  by (cases "r = ''/''") (auto simp: startsWith_refl dest: startsWith_prefix)

text \<open>A path under an allowed root is never refused by the allow-list check.\<close>

lemma readFile_under_root:
  assumes "\<not> outsideEveryRoot fs client path"
  shows "readFile fs client path = fs_readFile fs path"
proof -
  from assms obtain r where "r \<in> set (allowedPaths client)"
    and "underRoot r (resolve (fs_cwd fs) path)"
    by (auto simp: outsideEveryRoot_def list_ex_iff)
  then have "isPathAllowed fs client path"
    by (auto simp: isPathAllowed_def list_ex_iff Let_def dest: underRoot_startsWith)
  then show ?thesis
    by (simp add: readFile_def)
qed

text \<open>
  C7. With the allow-list \<open>/home/u/game\<close>, the path \<open>/home/u/game-secrets/key.txt\<close>
  lies outside every allowed root, yet \<open>readFile\<close> does not refuse it and returns the
  content of the file: the test is \<open>startsWith\<close> on the text of the paths.
\<close>

theorem readFile_sibling_directory:
  "allowedPaths gameClient = [''/home/u/game''] \<and>
   outsideEveryRoot siblingFs gameClient ''/home/u/game-secrets/key.txt'' \<and>
   readFile siblingFs gameClient ''/home/u/game-secrets/key.txt'' = Inr ''secret''"
proof -
  have r1: "resolve ''/'' ''/home/u/game'' = ''/home/u/game''"
    by (simp add: resolve_def resolvedSegments_def)
  have r2: "resolve ''/'' ''/home/u/game-secrets/key.txt'' = ''/home/u/game-secrets/key.txt''"
    by (simp add: resolve_def resolvedSegments_def)
  have al: "allowedPaths gameClient = [''/home/u/game'']"
    by (simp add: gameClient_def addAllowedPath_def siblingFs_def r1)
  have out: "outsideEveryRoot siblingFs gameClient ''/home/u/game-secrets/key.txt''"
    by (simp add: outsideEveryRoot_def al underRoot_def) (simp add: siblingFs_def r2)
  have rd: "readFile siblingFs gameClient ''/home/u/game-secrets/key.txt'' = Inr ''secret''"
    by (simp add: readFile_def isPathAllowed_def al) (simp add: siblingFs_def r2)
  from al out rd show ?thesis
    by simp
qed

section \<open>Incremental index maintainer: properties\<close>

text \<open>
  C6. For every path, project, environment and world, the watch callback on an \<open>unlink\<close>
  event makes no call to the vector store and leaves the index as it is: the world after
  the callback is the world before it.
\<close>

theorem watchCallback_unlink_no_store_call:
  "w_calls (snd (watchCallback env projectPath onChange path Unlink w)) = w_calls w \<and>
   w_index (snd (watchCallback env projectPath onChange path Unlink w)) = w_index w \<and>
   watchCallback env projectPath onChange path Unlink w = (Inr (), w)"
proof -
  have "\<not> (endsWith path ''.cs'' \<and> Unlink \<noteq> Unlink)"
    by simp
  then have "watchCallback env projectPath onChange path Unlink w = (Inr (), w)"
    by (simp add: watchCallback_def)
  then show ?thesis
    by simp
qed

section \<open>Indexing pipeline: properties\<close>

text \<open>
  C1. On the project with eleven scripts of which \<open>S05.cs\<close> cannot be read,
  \<open>getUnityScripts\<close> reads every script before the loop of \<open>indexScripts\<close> starts, and
  the failed read rejects it: \<open>indexProject\<close> throws the read error, makes no call to
  the store and returns no counts.
\<close>

theorem indexProject_unreadable_script:
  "findFiles unreadableFs gameRootClient ''/game/Assets/Scripts'' (\<lambda>file. endsWith file ''.cs'')
     = Inr (map (\<lambda>n. ''/game/Assets/Scripts/'' @ n) scriptNames) \<and>
   length scriptNames = 11 \<and>
   filter (\<lambda>n. isl (fs_readFile unreadableFs (''/game/Assets/Scripts/'' @ n))) scriptNames
     = [''S05.cs''] \<and>
   indexProject (exampleEnv unreadableFs) ''/game'' emptyWorld
     = (Inl (FsError ''/game/Assets/Scripts/S05.cs''), emptyWorld\<lparr>w_client := gameRootClient\<rparr>) \<and>
   w_calls (emptyWorld\<lparr>w_client := gameRootClient\<rparr>) = []"
proof (intro conjI)
  have r1: "resolve ''/'' ''/game'' = ''/game''"
    by (simp add: resolve_def resolvedSegments_def)
  have add: "addAllowedPath unreadableFs ''/game'' \<lparr>allowedPaths = [], watchers = Map.empty\<rparr>
               = gameRootClient"
    by (simp add: addAllowedPath_def unreadableFs_def r1 gameRootClient_def)
  have sp: "pathJoin [''/game'', ''Assets'', ''Scripts''] = ''/game/Assets/Scripts''"
    by (simp add: pathJoin_def normalize_def endsWith_def)
  show files: "findFiles unreadableFs gameRootClient ''/game/Assets/Scripts''
                 (\<lambda>file. endsWith file ''.cs'')
                 = Inr (map (\<lambda>n. ''/game/Assets/Scripts/'' @ n) scriptNames)"
    by (simp add: findFiles_def listDirectory_def isPathAllowed_def gameRootClient_def
        unreadableFs_def resolve_def resolvedSegments_def projectTree_def scriptNames_def
        pathJoin_def normalize_def endsWith_def)
  have "getUnityScripts unreadableFs gameRootClient ''/game/Assets/Scripts''
          = promiseAll (loadScript unreadableFs gameRootClient)
              (map (\<lambda>n. ''/game/Assets/Scripts/'' @ n) scriptNames)"
    by (simp only: getUnityScripts_def files sum.case)
  also have "\<dots> = Inl (FsError ''/game/Assets/Scripts/S05.cs'')"
    by (simp add: scriptNames_def loadScript_def readFile_def getFileStats_def isPathAllowed_def
        gameRootClient_def unreadableFs_def resolve_def resolvedSegments_def basename_def)
  finally have scripts: "getUnityScripts unreadableFs gameRootClient ''/game/Assets/Scripts''
                   = Inl (FsError ''/game/Assets/Scripts/S05.cs'')" .
  show "indexProject (exampleEnv unreadableFs) ''/game'' emptyWorld
          = (Inl (FsError ''/game/Assets/Scripts/S05.cs''), emptyWorld\<lparr>w_client := gameRootClient\<rparr>)"
    by (simp add: indexProject_def indexScripts_def exampleEnv_def emptyWorld_def add sp scripts Let_def)
  show "length scriptNames = 11"
    by (simp add: scriptNames_def)
  show "filter (\<lambda>n. isl (fs_readFile unreadableFs (''/game/Assets/Scripts/'' @ n))) scriptNames
          = [''S05.cs'']"
    by (simp add: unreadableFs_def scriptNames_def)
  show "w_calls (emptyWorld\<lparr>w_client := gameRootClient\<rparr>) = []"
    by (simp add: emptyWorld_def)
qed

section \<open>Re-indexing: properties\<close>

lemma token_prefix_inj:
  assumes "freshTokens tok N" and "j < N" and "k < N" and "tok j @ s = tok k @ s'"
  shows "j = k"
proof -
  from assms(1) have len: "length (tok i) = 21" if "i < N" for i
    using that by (simp add: freshTokens_def list_all_iff)
  from len [OF assms(2)] len [OF assms(3)] assms(4) have eq: "tok j = tok k"
    by (simp add: append_eq_append_conv)
  from assms(1) have inj: "inj_on tok (set [0..<N])"
    by (simp add: freshTokens_def distinct_map)
  from assms(2,3) have "j \<in> set [0..<N]" "k \<in> set [0..<N]"
    by simp_all
  with inj eq show ?thesis
    by (rule inj_onD)
qed

lemma idsFrom_append:
  "idsFrom tok n A \<Longrightarrow> idsFrom tok (n + length A) B \<Longrightarrow> idsFrom tok n (A @ B)"
  unfolding idsFrom_def
proof (intro allI impI)
  fix j
  assume A: "\<forall>j<length A. \<exists>s. d_id (A ! j) = tok (n + j) @ s"
    and B: "\<forall>j<length B. \<exists>s. d_id (B ! j) = tok (n + length A + j) @ s"
    and j: "j < length (A @ B)"
  show "\<exists>s. d_id ((A @ B) ! j) = tok (n + j) @ s"
  proof (cases "j < length A")
    case True
    with A show ?thesis by (simp add: nth_append)
  next
    case False
    with j have "j - length A < length B" by simp
    with B obtain s where "d_id (B ! (j - length A)) = tok (n + length A + (j - length A)) @ s"
      by blast
    with False show ?thesis by (simp add: nth_append)
  qed
qed

lemma idsFrom_Nil: "idsFrom tok n []"
  by (simp add: idsFrom_def)

lemma idsFrom_distinct:
  assumes "freshTokens tok N" and "idsFrom tok n docs" and "n + length docs \<le> N"
  shows "distinct (map d_id docs)"
proof -
  have "i = j" if "i < length docs" "j < length docs" "d_id (docs ! i) = d_id (docs ! j)" for i j
  proof -
    from assms(2) that obtain s s' where "d_id (docs ! i) = tok (n + i) @ s"
      "d_id (docs ! j) = tok (n + j) @ s'"
      unfolding idsFrom_def by blast
    with that(3) have "tok (n + i) @ s = tok (n + j) @ s'" by simp
    moreover from that assms(3) have "n + i < N" "n + j < N" by simp_all
    ultimately have "n + i = n + j" using assms(1) by (blast intro: token_prefix_inj)
    then show ?thesis by simp
  qed
  then show ?thesis
    by (auto simp: distinct_conv_nth)
qed

lemma idsFrom_disjoint:
  assumes "freshTokens tok N" and "idsFrom tok n A" and "idsFrom tok m B"
    and "n + length A \<le> m" and "m + length B \<le> N"
  shows "set (map d_id A) \<inter> set (map d_id B) = {}"
proof -
  have False if "i < length A" "j < length B" "d_id (A ! i) = d_id (B ! j)" for i j
  proof -
    from assms(2,3) that obtain s s' where "d_id (A ! i) = tok (n + i) @ s"
      "d_id (B ! j) = tok (m + j) @ s'"
      unfolding idsFrom_def by blast
    with that(3) have "tok (n + i) @ s = tok (m + j) @ s'" by simp
    moreover from that assms(4,5) have "n + i < N" "m + j < N" by simp_all
    ultimately have "n + i = m + j" using assms(1) by (blast intro: token_prefix_inj)
    with that assms(4) show False by simp
  qed
  then show ?thesis
    by (auto simp: in_set_conv_nth)
qed

text \<open>What a batch store that completes does to the world.\<close>

lemma promiseAll_embed_ids:
  "promiseAll (embedDocument emb) docs = Inr vectors \<Longrightarrow> map rec_id vectors = map d_id docs"
proof (induction docs arbitrary: vectors)
  case Nil
  then show ?case by simp
next
  case (Cons d ds)
  then show ?case
    by (auto simp: embedDocument_def split: sum.splits)
qed

lemma upsertedIds_append: "upsertedIds (a @ b) = upsertedIds a @ upsertedIds b"
  by (simp add: upsertedIds_def)

lemma dom_upsertRecords: "dom (upsertRecords batch m) = dom m \<union> set (map rec_id batch)"
  unfolding upsertRecords_def
  by (induction batch arbitrary: m) auto

lemma upsert_ok:
  assumes "upsert env batch w = (Inr u, w')"
  shows "dom (w_index w') = dom (w_index w) \<union> set (map rec_id batch) \<and>
         upsertedIds (w_calls w') = upsertedIds (w_calls w) @ map rec_id batch \<and>
         w_nano w' = w_nano w \<and> w_client w' = w_client w"
proof -
  from assms have w': "w' = w\<lparr>w_index := upsertRecords batch (w_index w),
                              w_calls := w_calls w @ [Upsert batch]\<rparr>"
    by (simp add: upsert_def split: if_splits)
  have "upsertedIds [Upsert batch] = map rec_id batch"
    by (simp add: upsertedIds_def)
  then show ?thesis
    unfolding w' by (simp add: dom_upsertRecords upsertedIds_append)
qed

lemma upsertLoop_ok:
  "upsertLoop env vectors i w = (Inr u, w') \<Longrightarrow>
     dom (w_index w') = dom (w_index w) \<union> set (map rec_id (drop i vectors)) \<and>
     upsertedIds (w_calls w') = upsertedIds (w_calls w) @ map rec_id (drop i vectors) \<and>
     w_nano w' = w_nano w \<and> w_client w' = w_client w"
proof (induction env vectors i w rule: upsertLoop.induct)
  case (1 env vectors i w)
  show ?case
  proof (cases "i < length vectors")
    case False
    with "1.prems" show ?thesis
      by (simp add: upsertLoop.simps [of env vectors i w])
  next
    case True
    obtain res w1 where up: "upsert env (take 100 (drop i vectors)) w = (res, w1)"
      by (cases "upsert env (take 100 (drop i vectors)) w")
    with True "1.prems" obtain u1 where res: "res = Inr u1"
      and rest: "upsertLoop env vectors (i + 100) w1 = (Inr u, w')"
      by (cases res) (simp_all add: upsertLoop.simps [of env vectors i w])
    from up res have up': "upsert env (take 100 (drop i vectors)) w = (Inr u1, w1)"
      by simp
    have "drop (i + 100) vectors = drop 100 (drop i vectors)"
      by (simp add: add.commute)
    then have split: "drop i vectors = take 100 (drop i vectors) @ drop (i + 100) vectors"
      by (simp only: append_take_drop_id)
    from "1.IH" [OF True up' [symmetric] refl rest]
    have ih: "dom (w_index w') = dom (w_index w1) \<union> set (map rec_id (drop (i + 100) vectors))"
      "upsertedIds (w_calls w') = upsertedIds (w_calls w1) @ map rec_id (drop (i + 100) vectors)"
      "w_nano w' = w_nano w1" "w_client w' = w_client w1"
      by simp_all
    from upsert_ok [OF up']
    have st: "dom (w_index w1) = dom (w_index w) \<union> set (map rec_id (take 100 (drop i vectors)))"
      "upsertedIds (w_calls w1) = upsertedIds (w_calls w) @ map rec_id (take 100 (drop i vectors))"
      "w_nano w1 = w_nano w" "w_client w1 = w_client w"
      by simp_all
    have ids: "map rec_id (drop i vectors) =
                 map rec_id (take 100 (drop i vectors)) @ map rec_id (drop (i + 100) vectors)"
      by (subst split) simp
    show ?thesis
      unfolding ih st ids by (simp add: Un_assoc)
  qed
qed

lemma storeBatch_ok:
  assumes "storeBatch env documents w = (Inr u, w')"
  shows "dom (w_index w') = dom (w_index w) \<union> set (map d_id documents) \<and>
         upsertedIds (w_calls w') = upsertedIds (w_calls w) @ map d_id documents \<and>
         w_nano w' = w_nano w \<and> w_client w' = w_client w"
proof -
  from assms obtain vectors where emb: "promiseAll (embedDocument (env_embed env)) documents = Inr vectors"
    and loop: "upsertLoop env vectors 0 w = (Inr u, w')"
    by (auto simp: storeBatch_def split: sum.splits)
  from upsertLoop_ok [OF loop] promiseAll_embed_ids [OF emb] show ?thesis
    by simp
qed

lemma stored_trans:
  assumes "stored tok w w1 A" and "stored tok w1 w2 B"
  shows "stored tok w w2 (A @ B)"
proof -
  from assms have "idsFrom tok (w_nano w) A" "idsFrom tok (w_nano w + length A) B"
    by (simp_all add: stored_def)
  then have "idsFrom tok (w_nano w) (A @ B)"
    by (rule idsFrom_append)
  with assms show ?thesis
    by (simp add: stored_def Un_assoc)
qed

lemma stored_batch:
  assumes "storeBatch env docs (w\<lparr>w_nano := w_nano w + length docs\<rparr>) = (Inr u, w')"
    and "idsFrom (env_nanoid env) (w_nano w) docs"
  shows "stored (env_nanoid env) w w' docs"
  using storeBatch_ok [OF assms(1)] assms(2)
  by (simp add: stored_def)

lemma stored_none: "stored tok w w []"
  by (simp add: stored_def idsFrom_Nil)

lemma scriptDocument_ids:
  "idsFrom (env_nanoid env) n
     (map (scriptDocument env info path name md upd n) (enumerate 0 chunks))"
  by (simp add: idsFrom_def scriptDocument_def nth_enumerate_eq)

lemma assetDocument_ids:
  "idsFrom (env_nanoid env) n (map (assetDocument env info ft label n) (enumerate 0 assets))"
  by (simp add: idsFrom_def assetDocument_def nth_enumerate_eq)

lemma scriptLoop_docs:
  "scriptLoop env info scripts (docs0, i0, e0, n0) = (docs, i, e, n) \<Longrightarrow>
     \<exists>new. docs = docs0 @ new \<and> idsFrom (env_nanoid env) n0 new \<and> n = n0 + length new \<and>
           length new =
             sum_list (map (\<lambda>s. length (chunkScript (script_content s) defaultMaxChunkSize)) scripts)"
proof (induction scripts arbitrary: docs0 i0 e0 n0)
  case Nil
  then show ?case
    by (simp add: idsFrom_Nil)
next
  case (Cons s scripts)
  define chunks where "chunks = chunkScript (script_content s) defaultMaxChunkSize"
  define ds where "ds = map (scriptDocument env info (script_path s) (script_name s)
      (parseScript (script_content s) (script_path s)) (script_modified s) n0) (enumerate 0 chunks)"
  have body: "indexScriptBody env info s n0 = Inr (ds, n0 + length chunks)"
    by (simp add: indexScriptBody_def Let_def ds_def chunks_def)
  have lds: "length ds = length chunks"
    by (simp add: ds_def)
  have ids: "idsFrom (env_nanoid env) n0 ds"
    unfolding ds_def by (rule scriptDocument_ids)
  from Cons.prems body
  have "scriptLoop env info scripts (docs0 @ ds, i0 + 1, e0, n0 + length chunks) = (docs, i, e, n)"
    by simp
  from Cons.IH [OF this] obtain new where new: "docs = (docs0 @ ds) @ new"
    "idsFrom (env_nanoid env) (n0 + length chunks) new" "n = n0 + length chunks + length new"
    "length new =
       sum_list (map (\<lambda>s. length (chunkScript (script_content s) defaultMaxChunkSize)) scripts)"
    by blast
  from ids new(2) lds have "idsFrom (env_nanoid env) n0 (ds @ new)"
    by (simp add: idsFrom_append)
  with new lds show ?case
    by (intro exI [of _ "ds @ new"]) (simp add: chunks_def)
qed

lemma indexScripts_stored:
  assumes "indexScripts env p info w = (Inr r, w')"
  shows "\<exists>scripts docs.
           getUnityScripts (env_fs env) (w_client w) (pathJoin [p, ''Assets'', ''Scripts'']) = Inr scripts \<and>
           length docs =
             sum_list (map (\<lambda>s. length (chunkScript (script_content s) defaultMaxChunkSize)) scripts) \<and>
           stored (env_nanoid env) w w' docs"
proof -
  from assms obtain scripts where
    scripts: "getUnityScripts (env_fs env) (w_client w) (pathJoin [p, ''Assets'', ''Scripts'']) = Inr scripts"
    by (cases "getUnityScripts (env_fs env) (w_client w) (pathJoin [p, ''Assets'', ''Scripts''])")
       (simp_all add: indexScripts_def Let_def)
  obtain docs i e n where loop: "scriptLoop env info scripts ([], 0, 0, w_nano w) = (docs, i, e, n)"
    by (cases "scriptLoop env info scripts ([], 0, 0, w_nano w)") auto
  from scriptLoop_docs [OF loop] have ids: "idsFrom (env_nanoid env) (w_nano w) docs"
    and n: "n = w_nano w + length docs"
    and len: "length docs =
       sum_list (map (\<lambda>s. length (chunkScript (script_content s) defaultMaxChunkSize)) scripts)"
    by auto
  have "stored (env_nanoid env) w w' docs"
  proof (cases "docs = []")
    case True
    with assms scripts loop n have "w' = w\<lparr>w_nano := w_nano w\<rparr>"
      by (simp add: indexScripts_def Let_def)
    with True show ?thesis
      by (simp add: stored_none)
  next
    case False
    with assms scripts loop n obtain u where
      "storeBatch env docs (w\<lparr>w_nano := w_nano w + length docs\<rparr>) = (Inr u, w')"
      by (auto simp: indexScripts_def Let_def split: prod.splits sum.splits)
    then show ?thesis
      using ids by (rule stored_batch)
  qed
  with scripts len show ?thesis
    by blast
qed

lemma indexAssets_stored:
  assumes "indexAssets env info ft label assets w = (Inr r, w')"
  shows "\<exists>docs. length docs = length assets \<and> stored (env_nanoid env) w w' docs"
proof -
  define docs where "docs = map (assetDocument env info ft label (w_nano w)) (enumerate 0 assets)"
  have len: "length docs = length assets"
    by (simp add: docs_def)
  have ids: "idsFrom (env_nanoid env) (w_nano w) docs"
    unfolding docs_def by (rule assetDocument_ids)
  have "stored (env_nanoid env) w w' docs"
  proof (cases "assets = []")
    case True
    with assms have "w' = w\<lparr>w_nano := w_nano w\<rparr>"
      by (simp add: indexAssets_def Let_def)
    moreover from True have "docs = []"
      by (simp add: docs_def)
    ultimately show ?thesis
      by (simp add: stored_none)
  next
    case False
    then have "docs \<noteq> []"
      using len by auto
    with assms len obtain u where
      "storeBatch env docs (w\<lparr>w_nano := w_nano w + length docs\<rparr>) = (Inr u, w')"
      by (auto simp: indexAssets_def Let_def docs_def split: prod.splits sum.splits if_splits)
    then show ?thesis
      using ids by (rule stored_batch)
  qed
  with len show ?thesis
    by blast
qed

lemma indexScenes_stored:
  assumes "indexScenes env p info w = (Inr r, w')"
  shows "\<exists>scenes docs. getUnityScenes (env_fs env) (w_client w) p = Inr scenes \<and>
           length docs = length scenes \<and> stored (env_nanoid env) w w' docs"
proof -
  from assms obtain scenes where scenes: "getUnityScenes (env_fs env) (w_client w) p = Inr scenes"
    and run: "indexAssets env info Scene ''Unity scene: '' scenes w = (Inr r, w')"
    by (cases "getUnityScenes (env_fs env) (w_client w) p") (simp_all add: indexScenes_def)
  from indexAssets_stored [OF run] scenes show ?thesis
    by blast
qed

lemma indexPrefabs_stored:
  assumes "indexPrefabs env p info w = (Inr r, w')"
  shows "\<exists>prefabs docs. getUnityPrefabs (env_fs env) (w_client w) p = Inr prefabs \<and>
           length docs = length prefabs \<and> stored (env_nanoid env) w w' docs"
proof -
  from assms obtain prefabs where prefabs: "getUnityPrefabs (env_fs env) (w_client w) p = Inr prefabs"
    and run: "indexAssets env info Prefab ''Unity prefab: '' prefabs w = (Inr r, w')"
    by (cases "getUnityPrefabs (env_fs env) (w_client w) p") (simp_all add: indexPrefabs_def)
  from indexAssets_stored [OF run] prefabs show ?thesis
    by blast
qed

lemma indexProject_stored:
  assumes "indexProject env p w = (Inr r, w')"
  shows "\<exists>docs. stored (env_nanoid env)
                  (w\<lparr>w_client := addAllowedPath (env_fs env) p (w_client w)\<rparr>) w' docs \<and>
                length docs = projectDocCount (env_fs env) (addAllowedPath (env_fs env) p (w_client w)) p"
proof -
  define c where "c = addAllowedPath (env_fs env) p (w_client w)"
  define w0 where "w0 = w\<lparr>w_client := c\<rparr>"
  define info where "info = getProjectInfo (env_fs env) (w_client w0) p"
  have unfold: "indexProject env p w =
      (case indexScripts env p info w0 of
         (Inl e, w1) \<Rightarrow> (Inl e, w1)
       | (Inr scriptResult, w1) \<Rightarrow>
           (case indexScenes env p info w1 of
              (Inl e, w2) \<Rightarrow> (Inl e, w2)
            | (Inr sceneResult, w2) \<Rightarrow>
                (case indexPrefabs env p info w2 of
                   (Inl e, w3) \<Rightarrow> (Inl e, w3)
                 | (Inr prefabResult, w3) \<Rightarrow>
                     (Inr \<lparr>totalFiles = pr_total scriptResult + pr_total sceneResult
                                          + pr_total prefabResult,
                           indexed = pr_indexed scriptResult + pr_indexed sceneResult
                                       + pr_indexed prefabResult,
                           errors = pr_errors scriptResult + pr_errors sceneResult
                                      + pr_errors prefabResult\<rparr>, w3))))"
    by (unfold indexProject_def Let_def c_def w0_def info_def) (rule refl)
  from assms obtain r1 w1 where s1: "indexScripts env p info w0 = (Inr r1, w1)"
    unfolding unfold by (auto split: prod.splits sum.splits)
  with assms obtain r2 w2 where s2: "indexScenes env p info w1 = (Inr r2, w2)"
    unfolding unfold by (auto split: prod.splits sum.splits)
  with assms s1 have s3: "\<exists>r3. indexPrefabs env p info w2 = (Inr r3, w')"
    unfolding unfold by (auto split: prod.splits sum.splits)
  then obtain r3 where s3: "indexPrefabs env p info w2 = (Inr r3, w')"
    by blast
  from indexScripts_stored [OF s1] obtain scripts A where
    A: "getUnityScripts (env_fs env) (w_client w0) (pathJoin [p, ''Assets'', ''Scripts'']) = Inr scripts"
       "length A = sum_list (map (\<lambda>s. length (chunkScript (script_content s) defaultMaxChunkSize)) scripts)"
       "stored (env_nanoid env) w0 w1 A"
    by blast
  from indexScenes_stored [OF s2] obtain scenes B where
    B: "getUnityScenes (env_fs env) (w_client w1) p = Inr scenes" "length B = length scenes"
       "stored (env_nanoid env) w1 w2 B"
    by blast
  from indexPrefabs_stored [OF s3] obtain prefabs C where
    C: "getUnityPrefabs (env_fs env) (w_client w2) p = Inr prefabs" "length C = length prefabs"
       "stored (env_nanoid env) w2 w' C"
    by blast
  have c0: "w_client w0 = c"
    by (simp add: w0_def)
  from A(3) c0 have c1: "w_client w1 = c"
    by (simp add: stored_def)
  from B(3) c1 have c2: "w_client w2 = c"
    by (simp add: stored_def)
  have all: "stored (env_nanoid env) w0 w' (A @ B @ C)"
    using A(3) B(3) C(3) by (blast intro: stored_trans)
  have "length (A @ B @ C) = projectDocCount (env_fs env) c p"
    using A(1,2) B(1,2) C(1,2) c0 c1 c2 by (simp add: projectDocCount_def)
  with all show ?thesis
    unfolding w0_def c_def by blast
qed

lemma addAllowedPath_idem:
  "addAllowedPath fs p (addAllowedPath fs p client) = addAllowedPath fs p client"
  by (simp add: addAllowedPath_def Let_def)

text \<open>A batch store completes when the embedding provider and the store do.\<close>

lemma promiseAll_total:
  assumes "\<forall>x. \<exists>y. f x = Inr y"
  shows "\<exists>ys. promiseAll f xs = Inr ys"
proof (induction xs)
  case Nil
  show ?case by simp
next
  case (Cons x xs)
  from assms obtain y where "f x = Inr y" by blast
  moreover from Cons obtain ys where "promiseAll f xs = Inr ys" by blast
  ultimately show ?case by simp
qed

lemma upsertLoop_total:
  "\<forall>b. env_accepts env b \<Longrightarrow> \<exists>w'. upsertLoop env vectors i w = (Inr (), w')"
proof (induction env vectors i w rule: upsertLoop.induct)
  case (1 env vectors i w)
  show ?case
  proof (cases "i < length vectors")
    case False
    then show ?thesis
      by (simp add: upsertLoop.simps [of env vectors i w])
  next
    case True
    define w1 where "w1 = w\<lparr>w_index := upsertRecords (take 100 (drop i vectors)) (w_index w),
                             w_calls := w_calls w @ [Upsert (take 100 (drop i vectors))]\<rparr>"
    have up: "upsert env (take 100 (drop i vectors)) w = (Inr (), w1)"
      using "1.prems" by (simp add: upsert_def w1_def)
    from "1.IH" [OF True up [symmetric] refl "1.prems"]
    obtain w' where "upsertLoop env vectors (i + 100) w1 = (Inr (), w')"
      by blast
    with True up show ?thesis
      by (simp add: upsertLoop.simps [of env vectors i w])
  qed
qed

lemma storeBatch_total:
  assumes "\<forall>b. env_accepts env b" and "\<forall>t. \<exists>v. env_embed env t = Inr v"
  shows "\<exists>w'. storeBatch env docs w = (Inr (), w')"
proof -
  have "\<exists>r. embedDocument (env_embed env) d = Inr r" for d
  proof -
    from assms(2) obtain v where "env_embed env (d_content d) = Inr v"
      by blast
    then show ?thesis
      by (simp add: embedDocument_def)
  qed
  then have "\<forall>d. \<exists>r. embedDocument (env_embed env) d = Inr r"
    by blast
  then obtain vectors where "promiseAll (embedDocument (env_embed env)) docs = Inr vectors"
    using promiseAll_total by blast
  with upsertLoop_total [OF assms(1), of vectors 0 w] show ?thesis
    by (simp add: storeBatch_def)
qed

text \<open>The re-indexing of one script by the watch callback, when nothing fails.\<close>

lemma watchCallback_stored:
  assumes "\<forall>b. env_accepts env b" and "\<forall>t. \<exists>v. env_embed env t = Inr v"
    and "endsWith path ''.cs''" and "event \<noteq> Unlink"
    and "readFile (env_fs env) (w_client w) path = Inr content"
    and "watchCallback env p None path event w = (res, w')"
  shows "\<exists>docs. length docs = length (chunkScript content defaultMaxChunkSize) \<and>
                stored (env_nanoid env) w w' docs"
proof -
  define chunks where "chunks = chunkScript content defaultMaxChunkSize"
  define docs where "docs = map (scriptDocument env (getProjectInfo (env_fs env) (w_client w) p)
      path path (parseScript content path) (int (env_now env)) (w_nano w)) (enumerate 0 chunks)"
  have len: "length docs = length chunks"
    by (simp add: docs_def)
  have ids: "idsFrom (env_nanoid env) (w_nano w) docs"
    unfolding docs_def by (rule scriptDocument_ids)
  from storeBatch_total [OF assms(1,2)] obtain w1 where
    st: "storeBatch env docs (w\<lparr>w_nano := w_nano w + length docs\<rparr>) = (Inr (), w1)"
    by blast
  with assms(3-6) len have "w' = w1"
    by (simp add: watchCallback_def Let_def docs_def chunks_def)
  with st ids have "stored (env_nanoid env) w w' docs"
    by (simp add: stored_batch)
  with len show ?thesis
    unfolding chunks_def by blast
qed

text \<open>
  C8. Let a first run of \<open>indexProject\<close> from an empty index complete. If a second run
  over the unchanged tree completes and the tokens drawn are fresh, the ids the two runs
  upsert are distinct lists without a common element and of the same length, so the index
  holds both sets of documents: twice as many as after the first run. Likewise a
  watch-triggered re-index of a script (a \<open>change\<close> or \<open>add\<close> event, store and
  embedding provider working) upserts one document for each chunk under ids that are not
  in the index, which grows by them.
\<close>

theorem reindex_appends_documents:
  assumes run1: "indexProject env projectPath w0 = (Inr r1, w1)"
    and empty: "w_index w0 = Map.empty"
  shows "(\<forall>t r2 w2.
            indexProject (env\<lparr>env_now := t\<rparr>) projectPath w1 = (Inr r2, w2) \<and>
            freshTokens (env_nanoid env) (w_nano w2) \<longrightarrow>
            (\<exists>ids1 ids2.
               upsertedIds (w_calls w1) = upsertedIds (w_calls w0) @ ids1 \<and>
               upsertedIds (w_calls w2) = upsertedIds (w_calls w1) @ ids2 \<and>
               distinct ids1 \<and> distinct ids2 \<and> set ids1 \<inter> set ids2 = {} \<and>
               length ids2 = length ids1 \<and>
               dom (w_index w1) = set ids1 \<and> dom (w_index w2) = set ids1 \<union> set ids2 \<and>
               card (dom (w_index w2)) = 2 * card (dom (w_index w1)))) \<and>
         (\<forall>t path event content res w3.
            (\<forall>b. env_accepts env b) \<and> (\<forall>x. \<exists>v. env_embed env x = Inr v) \<and>
            endsWith path ''.cs'' \<and> event \<noteq> Unlink \<and>
            readFile (env_fs env) (w_client w1) path = Inr content \<and>
            watchCallback (env\<lparr>env_now := t\<rparr>) projectPath None path event w1 = (res, w3) \<and>
            freshTokens (env_nanoid env) (w_nano w3) \<longrightarrow>
            (\<exists>ids3.
               upsertedIds (w_calls w3) = upsertedIds (w_calls w1) @ ids3 \<and>
               distinct ids3 \<and> set ids3 \<inter> dom (w_index w1) = {} \<and>
               length ids3 = length (chunkScript content defaultMaxChunkSize) \<and>
               dom (w_index w3) = dom (w_index w1) \<union> set ids3 \<and>
               card (dom (w_index w3)) = card (dom (w_index w1)) + length ids3))"
proof -
  define tok where "tok = env_nanoid env"
  define c where "c = addAllowedPath (env_fs env) projectPath (w_client w0)"
  from indexProject_stored [OF run1] obtain D1 where
    D1: "stored tok (w0\<lparr>w_client := c\<rparr>) w1 D1"
    and n1: "length D1 = projectDocCount (env_fs env) c projectPath"
    unfolding tok_def c_def by blast
  from D1 have c1: "w_client w1 = c" and nano1: "w_nano w1 = w_nano w0 + length D1"
    and ids1: "idsFrom tok (w_nano w0) D1"
    and dom1: "dom (w_index w1) = set (map d_id D1)"
    and calls1: "upsertedIds (w_calls w1) = upsertedIds (w_calls w0) @ map d_id D1"
    using empty by (simp_all add: stored_def)
  have part1: "\<exists>ids1 ids2.
               upsertedIds (w_calls w1) = upsertedIds (w_calls w0) @ ids1 \<and>
               upsertedIds (w_calls w2) = upsertedIds (w_calls w1) @ ids2 \<and>
               distinct ids1 \<and> distinct ids2 \<and> set ids1 \<inter> set ids2 = {} \<and>
               length ids2 = length ids1 \<and>
               dom (w_index w1) = set ids1 \<and> dom (w_index w2) = set ids1 \<union> set ids2 \<and>
               card (dom (w_index w2)) = 2 * card (dom (w_index w1))"
    if run2: "indexProject (env\<lparr>env_now := t\<rparr>) projectPath w1 = (Inr r2, w2)"
      and fresh: "freshTokens (env_nanoid env) (w_nano w2)" for t r2 w2
  proof -
    have same: "addAllowedPath (env_fs env) projectPath (w_client w1) = c"
      unfolding c1 c_def by (rule addAllowedPath_idem)
    from indexProject_stored [OF run2] obtain D2 where
      D2: "stored tok (w1\<lparr>w_client := c\<rparr>) w2 D2"
      and n2: "length D2 = projectDocCount (env_fs env) c projectPath"
      unfolding tok_def by (auto simp: same)
    from D2 have nano2: "w_nano w2 = w_nano w1 + length D2"
      and ids2: "idsFrom tok (w_nano w1) D2"
      and dom2: "dom (w_index w2) = dom (w_index w1) \<union> set (map d_id D2)"
      and calls2: "upsertedIds (w_calls w2) = upsertedIds (w_calls w1) @ map d_id D2"
      by (simp_all add: stored_def)
    from fresh have fr: "freshTokens tok (w_nano w2)"
      by (simp add: tok_def)
    have d1: "distinct (map d_id D1)"
      using fr ids1 by (rule idsFrom_distinct) (simp add: nano2 nano1)
    have d2: "distinct (map d_id D2)"
      using fr ids2 by (rule idsFrom_distinct) (simp add: nano2)
    have dis: "set (map d_id D1) \<inter> set (map d_id D2) = {}"
      using fr ids1 ids2 by (rule idsFrom_disjoint) (simp_all add: nano1 nano2)
    have len: "length (map d_id D2) = length (map d_id D1)"
      by (simp add: n1 n2)
    have k1: "card (set (map d_id D1)) = length (map d_id D1)"
      using d1 by (rule distinct_card)
    have k2: "card (set (map d_id D2)) = length (map d_id D2)"
      using d2 by (rule distinct_card)
    have "card (set (map d_id D1) \<union> set (map d_id D2)) =
            card (set (map d_id D1)) + card (set (map d_id D2))"
      using dis by (intro card_Un_disjoint) simp_all
    then have "card (dom (w_index w2)) = 2 * card (dom (w_index w1))"
      unfolding dom2 dom1 k1 k2 len by simp
    with calls1 calls2 d1 d2 dis len dom1 dom2 show ?thesis
      by (intro exI [of _ "map d_id D1"] exI [of _ "map d_id D2"]) simp
  qed
  have part2: "\<exists>ids3.
               upsertedIds (w_calls w3) = upsertedIds (w_calls w1) @ ids3 \<and>
               distinct ids3 \<and> set ids3 \<inter> dom (w_index w1) = {} \<and>
               length ids3 = length (chunkScript content defaultMaxChunkSize) \<and>
               dom (w_index w3) = dom (w_index w1) \<union> set ids3 \<and>
               card (dom (w_index w3)) = card (dom (w_index w1)) + length ids3"
    if acc: "\<forall>b. env_accepts env b" and emb: "\<forall>x. \<exists>v. env_embed env x = Inr v"
      and cs: "endsWith path ''.cs''" and ev: "event \<noteq> Unlink"
      and rd: "readFile (env_fs env) (w_client w1) path = Inr content"
      and cb: "watchCallback (env\<lparr>env_now := t\<rparr>) projectPath None path event w1 = (res, w3)"
      and fresh: "freshTokens (env_nanoid env) (w_nano w3)" for t path event content res w3
  proof -
    from watchCallback_stored [of "env\<lparr>env_now := t\<rparr>" path event w1 content projectPath res w3]
      acc emb cs ev rd cb
    obtain D3 where n3: "length D3 = length (chunkScript content defaultMaxChunkSize)"
      and D3: "stored tok w1 w3 D3"
      unfolding tok_def by auto
    from D3 have nano3: "w_nano w3 = w_nano w1 + length D3"
      and ids3: "idsFrom tok (w_nano w1) D3"
      and dom3: "dom (w_index w3) = dom (w_index w1) \<union> set (map d_id D3)"
      and calls3: "upsertedIds (w_calls w3) = upsertedIds (w_calls w1) @ map d_id D3"
      by (simp_all add: stored_def)
    from fresh have fr: "freshTokens tok (w_nano w3)"
      by (simp add: tok_def)
    have d3: "distinct (map d_id D3)"
      using fr ids3 by (rule idsFrom_distinct) (simp add: nano3)
    have dis: "set (map d_id D1) \<inter> set (map d_id D3) = {}"
      using fr ids1 ids3 by (rule idsFrom_disjoint) (simp_all add: nano1 nano3)
    have k3: "card (set (map d_id D3)) = length (map d_id D3)"
      using d3 by (rule distinct_card)
    have "card (set (map d_id D1) \<union> set (map d_id D3)) =
            card (set (map d_id D1)) + card (set (map d_id D3))"
      using dis by (intro card_Un_disjoint) simp_all
    then have "card (dom (w_index w3)) = card (dom (w_index w1)) + length (map d_id D3)"
      unfolding dom3 dom1 k3 by simp
    with calls3 d3 dis n3 dom3 dom1 show ?thesis
      by (intro exI [of _ "map d_id D3"]) (simp add: Int_commute)
  qed
  from part1 part2 show ?thesis
    by blast
qed

text \<open>When every file can be read and listed and the embedding provider and the store
  work, every pass and the whole run complete.\<close>

lemma indexAssets_total:
  assumes "\<forall>b. env_accepts env b" and "\<forall>t. \<exists>v. env_embed env t = Inr v"
  shows "\<exists>r w'. indexAssets env info ft label assets w = (Inr r, w')"
proof -
  define docs where "docs = map (assetDocument env info ft label (w_nano w)) (enumerate 0 assets)"
  from storeBatch_total [OF assms] obtain w1 where
    "storeBatch env docs (w\<lparr>w_nano := w_nano w + length assets\<rparr>) = (Inr (), w1)"
    by blast
  then show ?thesis
    by (simp add: indexAssets_def Let_def docs_def)
qed

lemma indexScripts_total:
  assumes "\<forall>b. env_accepts env b" and "\<forall>t. \<exists>v. env_embed env t = Inr v"
    and "getUnityScripts (env_fs env) (w_client w) (pathJoin [p, ''Assets'', ''Scripts'']) = Inr scripts"
  shows "\<exists>r w'. indexScripts env p info w = (Inr r, w')"
proof -
  obtain docs i e n where loop: "scriptLoop env info scripts ([], 0, 0, w_nano w) = (docs, i, e, n)"
    by (cases "scriptLoop env info scripts ([], 0, 0, w_nano w)") auto
  from storeBatch_total [OF assms(1,2)] obtain w1 where
    "storeBatch env docs (w\<lparr>w_nano := n\<rparr>) = (Inr (), w1)"
    by blast
  with assms(3) loop show ?thesis
    by (simp add: indexScripts_def Let_def)
qed

lemma indexProject_total:
  assumes acc: "\<forall>b. env_accepts env b" and emb: "\<forall>t. \<exists>v. env_embed env t = Inr v"
    and scripts: "getUnityScripts (env_fs env) (addAllowedPath (env_fs env) p (w_client w))
                    (pathJoin [p, ''Assets'', ''Scripts'']) = Inr scripts"
    and scenes: "getUnityScenes (env_fs env) (addAllowedPath (env_fs env) p (w_client w)) p = Inr scenes"
    and prefabs: "getUnityPrefabs (env_fs env) (addAllowedPath (env_fs env) p (w_client w)) p = Inr prefabs"
  shows "\<exists>r w'. indexProject env p w = (Inr r, w')"
proof -
  define c where "c = addAllowedPath (env_fs env) p (w_client w)"
  define w0 where "w0 = w\<lparr>w_client := c\<rparr>"
  define info where "info = getProjectInfo (env_fs env) (w_client w0) p"
  have c0: "w_client w0 = c"
    by (simp add: w0_def)
  from indexScripts_total [OF acc emb, of w0 p scripts info] scripts
  obtain r1 w1 where s1: "indexScripts env p info w0 = (Inr r1, w1)"
    by (auto simp: c0 c_def)
  from indexScripts_stored [OF s1] c0 have c1: "w_client w1 = c"
    by (auto simp: stored_def)
  from scenes c1 have "getUnityScenes (env_fs env) (w_client w1) p = Inr scenes"
    by (simp add: c_def)
  with indexAssets_total [OF acc emb, of info Scene "''Unity scene: ''" scenes w1]
  obtain r2 w2 where s2: "indexScenes env p info w1 = (Inr r2, w2)"
    by (auto simp: indexScenes_def)
  from indexScenes_stored [OF s2] c1 have c2: "w_client w2 = c"
    by (auto simp: stored_def)
  from prefabs c2 have "getUnityPrefabs (env_fs env) (w_client w2) p = Inr prefabs"
    by (simp add: c_def)
  with indexAssets_total [OF acc emb, of info Prefab "''Unity prefab: ''" prefabs w2]
  obtain r3 w3 where s3: "indexPrefabs env p info w2 = (Inr r3, w3)"
    by (auto simp: indexPrefabs_def)
  have "indexProject env p w =
      (case indexScripts env p info w0 of
         (Inl e, w1) \<Rightarrow> (Inl e, w1)
       | (Inr scriptResult, w1) \<Rightarrow>
           (case indexScenes env p info w1 of
              (Inl e, w2) \<Rightarrow> (Inl e, w2)
            | (Inr sceneResult, w2) \<Rightarrow>
                (case indexPrefabs env p info w2 of
                   (Inl e, w3) \<Rightarrow> (Inl e, w3)
                 | (Inr prefabResult, w3) \<Rightarrow>
                     (Inr \<lparr>totalFiles = pr_total scriptResult + pr_total sceneResult
                                          + pr_total prefabResult,
                           indexed = pr_indexed scriptResult + pr_indexed sceneResult
                                       + pr_indexed prefabResult,
                           errors = pr_errors scriptResult + pr_errors sceneResult
                                      + pr_errors prefabResult\<rparr>, w3))))"
    by (unfold indexProject_def Let_def c_def w0_def info_def) (rule refl)
  with s1 s2 s3 show ?thesis
    by simp
qed

lemma readableFs_scripts:
  "getUnityScripts readableFs gameRootClient ''/game/Assets/Scripts'' =
     Inr [\<lparr>script_path = ''/game/Assets/Scripts/A.cs'', script_name = ''A.cs'',
            script_content = ''class A {}'', script_size = 10, script_modified = 0\<rparr>,
          \<lparr>script_path = ''/game/Assets/Scripts/B.cs'', script_name = ''B.cs'',
            script_content = ''class A {}'', script_size = 10, script_modified = 0\<rparr>]"
proof -
  have files: "findFiles readableFs gameRootClient ''/game/Assets/Scripts''
                 (\<lambda>file. endsWith file ''.cs'')
                 = Inr [''/game/Assets/Scripts/A.cs'', ''/game/Assets/Scripts/B.cs'']"
    by (simp add: findFiles_def listDirectory_def isPathAllowed_def gameRootClient_def
        readableFs_def resolve_def resolvedSegments_def projectTree_def
        pathJoin_def normalize_def endsWith_def)
  have "getUnityScripts readableFs gameRootClient ''/game/Assets/Scripts''
          = promiseAll (loadScript readableFs gameRootClient)
              [''/game/Assets/Scripts/A.cs'', ''/game/Assets/Scripts/B.cs'']"
    by (simp only: getUnityScripts_def files sum.case)
  also have "\<dots> = Inr [\<lparr>script_path = ''/game/Assets/Scripts/A.cs'', script_name = ''A.cs'',
            script_content = ''class A {}'', script_size = 10, script_modified = 0\<rparr>,
          \<lparr>script_path = ''/game/Assets/Scripts/B.cs'', script_name = ''B.cs'',
            script_content = ''class A {}'', script_size = 10, script_modified = 0\<rparr>]"
    by (simp add: loadScript_def readFile_def getFileStats_def isPathAllowed_def
        gameRootClient_def readableFs_def resolve_def resolvedSegments_def basename_def
        plainStats_def)
  finally show ?thesis .
qed

lemma readableFs_scenes: "getUnityScenes readableFs gameRootClient ''/game'' = Inr []"
  by (simp add: getUnityScenes_def findFiles_def listDirectory_def isPathAllowed_def
      gameRootClient_def readableFs_def resolve_def resolvedSegments_def projectTree_def
      pathJoin_def normalize_def endsWith_def)

lemma readableFs_prefabs: "getUnityPrefabs readableFs gameRootClient ''/game'' = Inr []"
  by (simp add: getUnityPrefabs_def findFiles_def listDirectory_def isPathAllowed_def
      gameRootClient_def readableFs_def resolve_def resolvedSegments_def projectTree_def
      pathJoin_def normalize_def endsWith_def)

lemma chunk_classA: "chunkScript ''class A {}'' defaultMaxChunkSize = [''class A {}'']"
  by (simp add: chunkScript_def chunkSection_def classSections_def jsSplit_def reClass_def
      matcherDefs charClasses trim_def defaultMaxChunkSize_def)

lemma readableFs_add:
  "addAllowedPath readableFs ''/game'' \<lparr>allowedPaths = [], watchers = Map.empty\<rparr> = gameRootClient"
  "addAllowedPath readableFs ''/game'' gameRootClient = gameRootClient"
  by (simp_all add: addAllowedPath_def readableFs_def resolve_def resolvedSegments_def
      gameRootClient_def)

lemma unaryToken_fresh: "freshTokens unaryToken 4" "freshTokens unaryToken 3"
  by (simp_all add: freshTokens_def unaryToken_def upt_rec eval_nat_numeral)

theorem reindex_appends_documents_witness:
  "\<exists>r1 w1 r2 w2 res w3.
     w_index emptyWorld = Map.empty \<and>
     indexProject (exampleEnv readableFs) ''/game'' emptyWorld = (Inr r1, w1) \<and>
     indexProject ((exampleEnv readableFs)\<lparr>env_now := 2000\<rparr>) ''/game'' w1 = (Inr r2, w2) \<and>
     freshTokens unaryToken (w_nano w2) \<and>
     card (dom (w_index w1)) = 2 \<and>
     card (dom (w_index w2)) = 2 * card (dom (w_index w1)) \<and>
     watchCallback ((exampleEnv readableFs)\<lparr>env_now := 2000\<rparr>) ''/game'' None
       ''/game/Assets/Scripts/A.cs'' Change w1 = (res, w3) \<and>
     freshTokens unaryToken (w_nano w3) \<and>
     card (dom (w_index w3)) = card (dom (w_index w1)) + 1"
proof -
  let ?E = "exampleEnv readableFs"
  let ?E2 = "?E\<lparr>env_now := 2000\<rparr>"
  let ?A = "''/game/Assets/Scripts/A.cs''"
  have env: "env_fs ?E = readableFs" "env_nanoid ?E = unaryToken" "\<forall>b. env_accepts ?E b"
    "\<forall>t. \<exists>v. env_embed ?E t = Inr v"
    by (simp_all add: exampleEnv_def exampleEmbedder_def)
  have env2: "env_fs ?E2 = readableFs" "env_nanoid ?E2 = unaryToken" "\<forall>b. env_accepts ?E2 b"
    "\<forall>t. \<exists>v. env_embed ?E2 t = Inr v"
    by (simp_all add: exampleEnv_def exampleEmbedder_def)
  have sp: "pathJoin [''/game'', ''Assets'', ''Scripts''] = ''/game/Assets/Scripts''"
    by (simp add: pathJoin_def normalize_def endsWith_def)
  have count: "projectDocCount readableFs gameRootClient ''/game'' = 2"
    by (simp add: projectDocCount_def sp readableFs_scripts readableFs_scenes readableFs_prefabs
        chunk_classA)
  have empty: "w_index emptyWorld = Map.empty"
    and cl0: "w_client emptyWorld = \<lparr>allowedPaths = [], watchers = Map.empty\<rparr>"
    and n0: "w_nano emptyWorld = 0"
    by (simp_all add: emptyWorld_def)
  have "\<exists>r1 w1. indexProject ?E ''/game'' emptyWorld = (Inr r1, w1)"
    by (rule indexProject_total [OF env(3,4)])
       (simp_all add: env(1) cl0 readableFs_add sp readableFs_scripts readableFs_scenes
        readableFs_prefabs)
  then obtain r1 w1 where run1: "indexProject ?E ''/game'' emptyWorld = (Inr r1, w1)"
    by blast
  from indexProject_stored [OF run1] obtain D1 where
    D1: "stored unaryToken (emptyWorld\<lparr>w_client := gameRootClient\<rparr>) w1 D1" "length D1 = 2"
    by (auto simp: env cl0 readableFs_add count)
  then have w1: "w_client w1 = gameRootClient" "w_nano w1 = 2"
    by (simp_all add: stored_def n0)
  from D1 have dom1: "dom (w_index w1) = set (map d_id D1)"
    and ids1: "idsFrom unaryToken 0 D1"
    by (simp_all add: stored_def emptyWorld_def)
  have "distinct (map d_id D1)"
    using unaryToken_fresh(1) ids1 by (rule idsFrom_distinct) (simp add: D1(2))
  then have "card (set (map d_id D1)) = length (map d_id D1)"
    by (rule distinct_card)
  then have card1: "card (dom (w_index w1)) = 2"
    unfolding dom1 by (simp add: D1(2))
  have "\<exists>r2 w2. indexProject ?E2 ''/game'' w1 = (Inr r2, w2)"
    by (rule indexProject_total [OF env2(3,4)])
       (simp_all add: env2(1) w1 readableFs_add sp readableFs_scripts readableFs_scenes
        readableFs_prefabs)
  then obtain r2 w2 where run2: "indexProject ?E2 ''/game'' w1 = (Inr r2, w2)"
    by blast
  from indexProject_stored [OF run2] obtain D2 where
    D2: "stored unaryToken (w1\<lparr>w_client := gameRootClient\<rparr>) w2 D2" "length D2 = 2"
    by (auto simp: env2 w1 readableFs_add count)
  then have w2: "w_nano w2 = 4"
    by (simp add: stored_def w1)
  obtain res w3 where cb: "watchCallback ?E2 ''/game'' None ?A Change w1 = (res, w3)"
    by (cases "watchCallback ?E2 ''/game'' None ?A Change w1")
  have rd0: "readFile readableFs gameRootClient ?A = Inr ''class A {}''"
    by (simp add: readFile_def isPathAllowed_def gameRootClient_def readableFs_def
        resolve_def resolvedSegments_def)
  have rd: "readFile (env_fs ?E) (w_client w1) ?A = Inr ''class A {}''"
    unfolding env(1) w1(1) by (rule rd0)
  have cs: "endsWith ?A ''.cs''"
    by (simp add: endsWith_def)
  have ev: "Change \<noteq> Unlink"
    by simp
  have rd2: "readFile (env_fs ?E2) (w_client w1) ?A = Inr ''class A {}''"
    unfolding env2(1) w1(1) by (rule rd0)
  from watchCallback_stored [OF env2(3,4) cs ev rd2 cb]
  obtain D3 where D3: "length D3 = 1" "stored unaryToken w1 w3 D3"
    by (auto simp: env2 chunk_classA)
  then have w3: "w_nano w3 = 3"
    by (simp add: stored_def w1)
  have fresh2: "freshTokens (env_nanoid ?E) (w_nano w2)"
    using unaryToken_fresh(1) by (simp add: env w2)
  have fresh3: "freshTokens (env_nanoid ?E) (w_nano w3)"
    using unaryToken_fresh(2) by (simp add: env w3)
  note main = reindex_appends_documents [OF run1 empty]
  from main [THEN conjunct1, rule_format, OF conjI [OF run2 fresh2]]
  have double: "card (dom (w_index w2)) = 2 * card (dom (w_index w1))"
    by (elim exE conjE)
  have hyp: "(\<forall>b. env_accepts ?E b) \<and> (\<forall>x. \<exists>v. env_embed ?E x = Inr v) \<and>
            endsWith ?A ''.cs'' \<and> Change \<noteq> Unlink \<and>
            readFile (env_fs ?E) (w_client w1) ?A = Inr ''class A {}'' \<and>
            watchCallback ?E2 ''/game'' None ?A Change w1 = (res, w3) \<and>
            freshTokens (env_nanoid ?E) (w_nano w3)"
    using env(3,4) cs ev rd cb fresh3 by blast
  from main [THEN conjunct2, rule_format, OF hyp]
  have grow: "card (dom (w_index w3)) = card (dom (w_index w1)) + 1"
    by (elim exE conjE) (simp add: chunk_classA)
  from fresh2 fresh3 have f2: "freshTokens unaryToken (w_nano w2)"
    and f3: "freshTokens unaryToken (w_nano w3)"
    by (simp_all add: env)
  from empty run1 run2 f2 card1 double cb f3 grow show ?thesis
    by blast
qed

section \<open>Style analyzer and transformer: the rewrites that cannot run\<close>

text \<open>
  Why the branch for "New-line braces" cannot be taken: both brace expressions match a
  closing parenthesis, white space and an opening brace, so their matches never overlap
  and are counted position by position; and wherever the new-line expression matches,
  the same-line expression matches too.
\<close>

lemma lit_one: "lit [k] t = Some r \<longleftrightarrow> t = k # r"
  by (cases t) (auto simp: lit_def)

lemma space_not_paren: "isSpace c \<Longrightarrow> c \<noteq> CHR '')''"
  by (auto simp: charClasses)

lemma reParenBrace_shape:
  assumes "reParenBrace t = Some (n, gs)"
  shows "\<exists>ws r. t = CHR '')'' # ws @ CHR ''{'' # r \<and> CHR '')'' \<notin> set ws \<and> n = length ws + 2"
proof -
  from assms obtain r1 r2 where t: "t = CHR '')'' # r1"
    and b: "dropWhile isSpace r1 = CHR ''{'' # r2" and n: "n = consumed t r2"
    by (auto simp: reParenBrace_def many0_def lit_one split: option.splits)
  define ws where "ws = takeWhile isSpace r1"
  have r1: "r1 = ws @ CHR ''{'' # r2"
    using takeWhile_dropWhile_id [of isSpace r1] b by (simp add: ws_def)
  have "CHR '')'' \<notin> set ws"
    using space_not_paren set_takeWhileD [of _ isSpace r1] by (auto simp: ws_def)
  with t r1 n show ?thesis
    by (auto simp: consumed_def)
qed

lemma reParenNewlineBrace_implies:
  "reParenNewlineBrace t = Some (n, gs) \<Longrightarrow> reParenBrace t = Some (n, gs)"
  by (auto simp: reParenNewlineBrace_def reParenBrace_def split: option.splits if_splits)

lemma reParen_start:
  "reParenBrace t \<noteq> None \<Longrightarrow> \<exists>r. t = CHR '')'' # r"
  by (auto simp: reParenBrace_def lit_one split: option.splits)

lemma matchPositions_skip:
  assumes "\<And>t. m t \<noteq> None \<Longrightarrow> \<exists>r. t = CHR '')'' # r" and "CHR '')'' \<notin> set xs"
  shows "matchPositions m (xs @ r) = matchPositions m r"
  using assms(2)
proof (induction xs)
  case Nil
  show ?case by simp
next
  case (Cons x xs)
  have "m (x # xs @ r) = None"
  proof (rule ccontr)
    assume "m (x # xs @ r) \<noteq> None"
    from assms(1) [OF this] Cons.prems show False by simp
  qed
  with Cons show ?case by simp
qed

lemma scanAll_positions:
  assumes start: "\<And>t. m t \<noteq> None \<Longrightarrow> \<exists>r. t = CHR '')'' # r"
    and shape: "\<And>t n gs. m t = Some (n, gs) \<Longrightarrow>
      \<exists>ws r. t = CHR '')'' # ws @ CHR ''{'' # r \<and> CHR '')'' \<notin> set ws \<and> n = length ws + 2"
  shows "length (scanAll m s) = matchPositions m s"
proof (induction "length s" arbitrary: s rule: less_induct)
  case less
  show ?case
  proof (cases s)
    case Nil
    have "m [] = None"
    proof (rule ccontr)
      assume "m [] \<noteq> None"
      from start [OF this] show False by simp
    qed
    with Nil show ?thesis by simp
  next
    case (Cons c cs)
    show ?thesis
    proof (cases "m (c # cs)")
      case None
      moreover have "length (scanAll m cs) = matchPositions m cs"
        using less Cons by simp
      ultimately show ?thesis
        using Cons by simp
    next
      case (Some ngs)
      obtain n gs where ngs: "ngs = (n, gs)"
        by (cases ngs)
      from shape [OF Some [unfolded ngs]] obtain ws r where
        t: "c # cs = CHR '')'' # ws @ CHR ''{'' # r" and ws: "CHR '')'' \<notin> set ws"
        and n: "n = length ws + 2"
        by blast
      from t have cs: "cs = (ws @ [CHR ''{'']) @ r"
        by simp
      have dr: "drop (max n 1) (c # cs) = r"
        unfolding t n by simp
      have "length r < length s"
        using Cons cs by simp
      then have ih: "length (scanAll m r) = matchPositions m r"
        by (rule less)
      from ws have "CHR '')'' \<notin> set (ws @ [CHR ''{''])"
        by simp
      with start have "matchPositions m ((ws @ [CHR ''{'']) @ r) = matchPositions m r"
        by (rule matchPositions_skip)
      then have "matchPositions m cs = matchPositions m r"
        by (simp only: cs)
      with Some ngs dr ih show ?thesis
        unfolding Cons by simp
    qed
  qed
qed

lemma matchPositions_mono:
  assumes "\<And>t. m1 t \<noteq> None \<Longrightarrow> m2 t \<noteq> None"
  shows "matchPositions m1 s \<le> matchPositions m2 s"
proof (induction s)
  case Nil
  show ?case by simp
next
  case (Cons c cs)
  with assms [of "c # cs"] show ?case
    by (cases "m1 (c # cs) = None") auto
qed

lemma newLine_le_sameLine:
  "length (scanAll reParenNewlineBrace s) \<le> length (scanAll reParenBrace s)"
proof -
  have imp: "reParenBrace t \<noteq> None" if "reParenNewlineBrace t \<noteq> None" for t
    using that reParenNewlineBrace_implies [of t] by (cases "reParenNewlineBrace t") auto
  have "length (scanAll reParenNewlineBrace s) = matchPositions reParenNewlineBrace s"
    by (rule scanAll_positions)
       (use imp reParen_start reParenNewlineBrace_implies reParenBrace_shape in blast)+
  moreover have "length (scanAll reParenBrace s) = matchPositions reParenBrace s"
    by (rule scanAll_positions) (use reParen_start reParenBrace_shape in blast)+
  moreover have "matchPositions reParenNewlineBrace s \<le> matchPositions reParenBrace s"
    using imp by (rule matchPositions_mono)
  ultimately show ?thesis
    by simp
qed

text \<open>So no corpus yields a "New-line braces" pattern.\<close>

lemma analyzeFormatting_never_newline:
  "''New-line braces'' \<notin> set (map pattern (analyzeFormatting scripts))"
proof -
  have "sum_list (map (\<lambda>script. length (scanAll reParenNewlineBrace script)) scripts)
          \<le> sum_list (map (\<lambda>script. length (scanAll reParenBrace script)) scripts)"
    by (rule sum_list_mono) (rule newLine_le_sameLine)
  then have "\<not> sum_list (map (\<lambda>script. length (scanAll reParenNewlineBrace script)) scripts)
          > sum_list (map (\<lambda>script. length (scanAll reParenBrace script)) scripts)"
    by simp
  moreover have "''New-line braces'' \<noteq> showNat k @ ''-space indentation''" for k
  proof
    assume "''New-line braces'' = showNat k @ ''-space indentation''"
    then have "last ''New-line braces'' = last (showNat k @ ''-space indentation'')"
      by simp
    then show False by simp
  qed
  ultimately show ?thesis
    by (auto simp: analyzeFormatting_def Let_def)
qed

text \<open>
  Why no profile of the naming analysis makes \<open>applyStyle\<close> rewrite a field: the
  analysis names its patterns with a capital first letter, and none of the four names
  includes the text "underscore prefix".
\<close>

lemma analyzeNaming_patterns:
  assumes "p \<in> set (analyzeNaming scripts)"
  shows "pat_type p = Naming \<and>
         pattern p \<in> {''PascalCase for classes'', ''PascalCase for methods'',
                       ''camelCase for methods'', ''Underscore prefix for private fields''}"
  using assms by (auto simp: analyzeNaming_def Let_def split: if_splits)

lemma applyNaming_analyzed:
  assumes "p \<in> set (analyzeNaming scripts)"
  shows "applyNaming p s = s"
proof -
  from analyzeNaming_patterns [OF assms]
  have "pattern p \<in> {''PascalCase for classes'', ''PascalCase for methods'',
                       ''camelCase for methods'', ''Underscore prefix for private fields''}"
    by simp
  then have "\<not> includesStr (pattern p) ''underscore prefix''"
    by (elim insertE emptyE) simp_all
  then show ?thesis
    by (simp add: applyNaming_def)
qed

lemma fold_applyNaming_analyzed:
  "set ps \<subseteq> set (analyzeNaming scripts) \<Longrightarrow> fold applyNaming ps s = s"
  by (induction ps arbitrary: s) (auto simp: applyNaming_analyzed)

lemma applyStyle_naming_profile_unchanged:
  assumes "patterns profile = analyzeNaming scripts"
  shows "applyStyle code profile = Inr code"
proof -
  have "filter (\<lambda>p. pat_type p = Formatting) (analyzeNaming scripts) = []"
    using analyzeNaming_patterns [of _ scripts] by (auto simp: filter_empty_conv)
  moreover have "fold applyNaming (filter (\<lambda>p. pat_type p = Naming) (analyzeNaming scripts)) code = code"
    by (rule fold_applyNaming_analyzed) auto
  ultimately show ?thesis
    by (simp add: applyStyle_def assms Let_def)
qed

end
